theory Spec2Isabelle
  imports Main "HOL-Library.Word"
begin

section \<open>Block headers (go/roothash/api/block/header.go)\<close>

text \<open>
  \<^verbatim>\<open>hash.Hash\<close> and \<^verbatim>\<open>common.Namespace\<close> are 32-byte arrays, a signature is a
  public key with a raw signature; their packages are outside the files at hand, the
  widths are those of the specification's data model.
\<close>

type_synonym Hash = "256 word"
type_synonym Namespace = "256 word"
type_synonym bytes = "8 word list"

record Signature =
  PublicKey :: "256 word"
  RawSignature :: "512 word"

text \<open>\<^verbatim>\<open>HeaderType\<close> is a \<^verbatim>\<open>uint8\<close> with five named values.\<close>

type_synonym HeaderType = "8 word"

definition Invalid :: HeaderType where "Invalid = 0"
definition Normal :: HeaderType where "Normal = 1"
definition RoundFailed :: HeaderType where "RoundFailed = 2"
definition EpochTransition :: HeaderType where "EpochTransition = 3"
definition Suspended :: HeaderType where "Suspended = 4"

text \<open>
  The \<^verbatim>\<open>Header\<close> struct. A Go slice that is nil and one that is empty are both the
  empty list here; \<^verbatim>\<open>MostlyEqual\<close> overwrites the field before it looks at it.
\<close>

record Header =
  Version :: "16 word"
  Namespace :: Namespace
  Round :: "64 word"
  Timestamp :: "64 word"
  HeaderType :: HeaderType
  PreviousHash :: Hash
  IORoot :: Hash
  StateRoot :: Hash
  MessagesHash :: Hash
  StorageSignatures :: "Signature list"

text \<open>
  Modelled from the spec: the storage root types and the receipt body
  \<^verbatim>\<open>{version, namespace, round, root_types, roots}\<close> of the storage API, which is not
  among the files at hand. The fields carry the prefix \<open>rb\<close> to keep them apart from the
  header's fields of the same name.
\<close>

datatype RootType = RootTypeIO | RootTypeState

record ReceiptBody =
  rbVersion :: "16 word"
  rbNamespace :: Namespace
  rbRound :: "64 word"
  rbRootTypes :: "RootType list"
  rbRoots :: "Hash list"

datatype block_error = ErrVerifyFailed

text \<open>
  \<^verbatim>\<open>EncodedHash\<close> is \<^verbatim>\<open>hash.NewFrom(h)\<close>, the digest of the canonical encoding of
  the header. The digest function is a parameter \<open>NewFrom\<close> of everything that hashes.
\<close>

definition EncodedHash :: "(Header \<Rightarrow> Hash) \<Rightarrow> Header \<Rightarrow> Hash" where
  "EncodedHash NewFrom h = NewFrom h"

definition IsParentOf :: "(Header \<Rightarrow> Hash) \<Rightarrow> Header \<Rightarrow> Header \<Rightarrow> bool" where
  "IsParentOf NewFrom h child = (PreviousHash h = EncodedHash NewFrom child)"

definition MostlyEqual :: "(Header \<Rightarrow> Hash) \<Rightarrow> Header \<Rightarrow> Header \<Rightarrow> bool" where
  "MostlyEqual NewFrom h cmp =
     (let a = h\<lparr>StorageSignatures := []\<rparr>;
          b = cmp\<lparr>StorageSignatures := []\<rparr>;
          aHash = EncodedHash NewFrom a;
          bHash = EncodedHash NewFrom b
      in aHash = bHash)"

definition RootsForStorageReceipt :: "Header \<Rightarrow> Hash list" where
  "RootsForStorageReceipt h = [IORoot h, StateRoot h]"

definition RootTypesForStorageReceipt :: "Header \<Rightarrow> RootType list" where
  "RootTypesForStorageReceipt h = [RootTypeIO, RootTypeState]"

text \<open>
  \<^verbatim>\<open>signature.VerifyManyToOne\<close>, the receipt signature context and \<^verbatim>\<open>cbor.Marshal\<close>
  are parameters: \<open>verifyManyToOne\<close>, \<open>receiptCtx\<close> and \<open>marshal\<close>.
\<close>

definition VerifyStorageReceiptSignatures ::
  "('c \<Rightarrow> bytes \<Rightarrow> Signature list \<Rightarrow> bool) \<Rightarrow> 'c \<Rightarrow> (ReceiptBody \<Rightarrow> bytes) \<Rightarrow> Header
     \<Rightarrow> block_error + unit" where
  "VerifyStorageReceiptSignatures verifyManyToOne receiptCtx marshal h =
     (let receiptBody = \<lparr>rbVersion = 1, rbNamespace = Namespace h, rbRound = Round h,
                         rbRootTypes = RootTypesForStorageReceipt h,
                         rbRoots = RootsForStorageReceipt h\<rparr>
      in if \<not> verifyManyToOne receiptCtx (marshal receiptBody) (StorageSignatures h)
         then Inl ErrVerifyFailed
         else Inr ())"

text \<open>Example headers: all fields zero but the namespace and the round, which is 0 or 1.\<close>

definition headerOf :: "Namespace \<Rightarrow> bool \<Rightarrow> Header" where
  "headerOf ns b =
     \<lparr>Version = 0, Namespace = ns, Round = (if b then 1 else 0), Timestamp = 0,
      HeaderType = Normal, PreviousHash = 0, IORoot = 0, StateRoot = 0, MessagesHash = 0,
      StorageSignatures = []\<rparr>"

section \<open>Committee node (go/worker/compute/committee/node.go)\<close>

text \<open>
  The controller's state is guarded by the cross-node lock, so each hook is one atomic
  step on the node. Logging, metrics, tracing spans, the crash points and the injection of
  discrepancies (both are fault injection) are left out. What a hook hands to other parts
  of the system (the state
  broadcast, the request to the worker host, the cancellation of the batch context, the
  storage call, the publication, the hand-over to the merge node) is appended to the
  field \<open>effects\<close> in the order of the calls. A Go panic is the left injection.
\<close>

type_synonym Batch = "bytes list"
type_synonym SpanContext = nat
type_synonym Time = nat
type_synonym WriteLog = "(bytes \<times> bytes) list"

record Block =
  Header :: Header

datatype StateName =
  NotReady | WaitingForBatch | WaitingForBlock | WaitingForEvent | ProcessingBatch
  | WaitingForFinalize

text \<open>
  The state types with the fields node.go gives them. The cancel function and the result
  channel of \<^verbatim>\<open>StateProcessingBatch\<close> are handles of the Go runtime: cancelling is
  the effect \<open>CancelBatch\<close>, the result channel is read by the worker loop, whose two
  cases are the operations \<open>abortBatchLocked\<close> and \<open>proposeBatchLocked\<close>.
\<close>

datatype NodeState =
  StateNotReady
  | StateWaitingForBatch
  | StateWaitingForBlock Batch SpanContext Header
  | StateWaitingForEvent Batch SpanContext
  | StateProcessingBatch Batch SpanContext Time
  | StateWaitingForFinalize Time

fun Name :: "NodeState \<Rightarrow> StateName" where
  "Name StateNotReady = NotReady"
| "Name StateWaitingForBatch = WaitingForBatch"
| "Name (StateWaitingForBlock batch batchSpanCtx header) = WaitingForBlock"
| "Name (StateWaitingForEvent batch batchSpanCtx) = WaitingForEvent"
| "Name (StateProcessingBatch batch batchSpanCtx batchStartTime) = ProcessingBatch"
| "Name (StateWaitingForFinalize batchStartTime) = WaitingForFinalize"

text \<open>
  Modelled from the spec: the table \<^verbatim>\<open>validStateTransitions\<close>, which node.go reads
  and which is declared in a file that is not at hand. It holds the rows of the
  controller's state table in the specification (NotReady to WaitingForBatch;
  WaitingForBatch to ProcessingBatch, WaitingForEvent or WaitingForBlock; WaitingForBlock
  to ProcessingBatch, WaitingForEvent or WaitingForBatch; ProcessingBatch to
  WaitingForFinalize; WaitingForEvent to ProcessingBatch or WaitingForBatch;
  WaitingForFinalize to WaitingForBatch) and, in every row, the two targets of an epoch
  transition, which the specification prescribes in whatever state the node is:
  WaitingForBatch when the node is a compute member, NotReady when it is not.
\<close>

fun validStateTransitions :: "StateName \<Rightarrow> StateName list" where
  "validStateTransitions NotReady = [WaitingForBatch, NotReady]"
| "validStateTransitions WaitingForBatch =
     [ProcessingBatch, WaitingForEvent, WaitingForBlock, WaitingForBatch, NotReady]"
| "validStateTransitions WaitingForBlock =
     [ProcessingBatch, WaitingForEvent, WaitingForBatch, NotReady]"
| "validStateTransitions WaitingForEvent = [ProcessingBatch, WaitingForBatch, NotReady]"
| "validStateTransitions ProcessingBatch = [WaitingForFinalize, WaitingForBatch, NotReady]"
| "validStateTransitions WaitingForFinalize = [WaitingForBatch, NotReady]"

datatype compute_error =
  errSeenNewerBlock | errWorkerAborted | errIncomatibleHeader | errIncorrectRole
  | errIncorrectState | errExternal string

datatype panic =
  InvalidStateTransition StateName StateName
  | NilBlock
  | NilPointerDereference
  | TypeAssertionFailed
  | IndexOutOfRange

text \<open>
  The results of the runtime and the bodies of commitments, with the fields node.go reads
  and writes; the packages that declare them are not at hand.
\<close>

record ComputeResultsHeader =
  resIORoot :: Hash
  resStateRoot :: Hash

record ComputedBatch =
  batchHeader :: ComputeResultsHeader
  IOWriteLog :: WriteLog
  StateWriteLog :: WriteLog
  batchRakSig :: "512 word"

record ComputeBody =
  CommitteeID :: Hash
  bodyHeader :: ComputeResultsHeader
  RakSig :: "512 word"
  StorageReceipt :: "Signature option"

record ApplyOp =
  Root :: Hash
  ExpectedNewRoot :: Hash
  WriteLog :: WriteLog


text \<open>The epoch snapshot of the committee group, with the predicates node.go asks.\<close>

record EpochSnapshot =
  IsComputeMember :: bool
  IsComputeBackupWorker :: bool
  IsMergeMember :: bool
  GetComputeCommitteeID :: Hash

text \<open>What node.go reads of the common node: it never writes these.\<close>

record CommonNode =
  CurrentBlock :: "Block option"
  RuntimeID :: Namespace
  GetEpochSnapshot :: EpochSnapshot

text \<open>
  The collaborators \<^verbatim>\<open>proposeBatchLocked\<close> calls: storage, the receipt, the signer
  and the group's transport. \<open>'sr\<close> is the signed receipt, \<open>'rc\<close> the opened receipt
  body, \<open>'cm\<close> the signed commitment. An error is its message.
\<close>

record ('sr, 'rc, 'cm) Collaborators =
  emptyRoot :: Hash
  ApplyBatch :: "ApplyOp list \<Rightarrow> string + 'sr"
  OpenReceipt :: "'sr \<Rightarrow> string + 'rc"
  VerifyStorageReceipt :: "ComputeBody \<Rightarrow> 'rc \<Rightarrow> string option"
  ReceiptSignature :: "'sr \<Rightarrow> Signature"
  SignComputeCommitment :: "ComputeBody \<Rightarrow> string + 'cm"
  PublishComputeFinished :: "SpanContext \<Rightarrow> 'cm \<Rightarrow> string option"
  mergeNodePresent :: bool

datatype 'cm node_effect =
  BroadcastState NodeState
  | BumpReselect
  | StartWorker Batch Block
  | CancelBatch
  | StorageApply "ApplyOp list"
  | Published 'cm
  | HandleResultsFromComputeWorker SpanContext 'cm

record 'cm Node =
  state :: NodeState
  effects :: "'cm node_effect list"


text \<open>The loop of \<^verbatim>\<open>transitionLocked\<close> over the destinations of the current state.\<close>

fun validDest :: "StateName list \<Rightarrow> StateName \<Rightarrow> bool" where
  "validDest [] name = False"
| "validDest (dest # dests) name = (if dest = name then True else validDest dests name)"

definition transitionLocked ::
  "(StateName \<Rightarrow> StateName list) \<Rightarrow> 'cm Node \<Rightarrow> NodeState \<Rightarrow> panic + 'cm Node" where
  "transitionLocked tbl n st =
     (let dests = tbl (Name (state n));
          valid = validDest dests (Name st)
      in if \<not> valid then Inl (InvalidStateTransition (Name (state n)) (Name st))
         else Inr (n\<lparr>state := st, effects := effects n @ [BroadcastState st, BumpReselect]\<rparr>))"


definition startProcessingBatchLocked ::
  "(StateName \<Rightarrow> StateName list) \<Rightarrow> CommonNode \<Rightarrow> Time \<Rightarrow> 'cm Node \<Rightarrow> Batch \<Rightarrow> SpanContext
     \<Rightarrow> panic + 'cm Node" where
  "startProcessingBatchLocked tbl cn now n batch batchSpanCtx =
     (case CurrentBlock cn of
        None \<Rightarrow> Inl NilBlock
      | Some blk \<Rightarrow>
          (case transitionLocked tbl n (StateProcessingBatch batch batchSpanCtx now) of
             Inl p \<Rightarrow> Inl p
           | Inr n' \<Rightarrow> Inr (n'\<lparr>effects := effects n' @ [StartWorker batch blk]\<rparr>)))"

definition maybeStartProcessingBatchLocked ::
  "(StateName \<Rightarrow> StateName list) \<Rightarrow> CommonNode \<Rightarrow> Time \<Rightarrow> 'cm Node \<Rightarrow> Batch \<Rightarrow> SpanContext
     \<Rightarrow> panic + 'cm Node" where
  "maybeStartProcessingBatchLocked tbl cn now n batch batchSpanCtx =
     (let epoch = GetEpochSnapshot cn
      in if IsComputeBackupWorker epoch
         then transitionLocked tbl n (StateWaitingForEvent batch batchSpanCtx)
         else startProcessingBatchLocked tbl cn now n batch batchSpanCtx)"


definition abortBatchLocked ::
  "(StateName \<Rightarrow> StateName list) \<Rightarrow> 'cm Node \<Rightarrow> compute_error \<Rightarrow> panic + 'cm Node" where
  "abortBatchLocked tbl n reason =
     (case state n of
        StateProcessingBatch batch batchSpanCtx batchStartTime \<Rightarrow>
          transitionLocked tbl (n\<lparr>effects := effects n @ [CancelBatch]\<rparr>)
            (StateWaitingForFinalize batchStartTime)
      | _ \<Rightarrow> Inr n)"




text \<open>
  \<^verbatim>\<open>handleExternalBatchLocked\<close> returns an error or nil beside the node. Reading the
  header of the current block when there is none is a nil dereference.
\<close>

definition handleExternalBatchLocked ::
  "(StateName \<Rightarrow> StateName list) \<Rightarrow> (Header \<Rightarrow> Hash) \<Rightarrow> CommonNode \<Rightarrow> Time \<Rightarrow> 'cm Node
     \<Rightarrow> Batch \<Rightarrow> SpanContext \<Rightarrow> Header \<Rightarrow> panic + (compute_error option \<times> 'cm Node)" where
  "handleExternalBatchLocked tbl NewFrom cn now n batch batchSpanCtx hdr =
     (case state n of
        StateWaitingForBatch \<Rightarrow>
          (let epoch = GetEpochSnapshot cn
           in if \<not> IsComputeMember epoch then Inr (Some errIncorrectRole, n)
              else
                (case CurrentBlock cn of
                   None \<Rightarrow> Inl NilPointerDereference
                 | Some blk \<Rightarrow>
                     if MostlyEqual NewFrom (Header blk) hdr
                     then (case maybeStartProcessingBatchLocked tbl cn now n batch batchSpanCtx of
                             Inl p \<Rightarrow> Inl p
                           | Inr n' \<Rightarrow> Inr (None, n'))
                     else
                       (let curRound = Round (Header blk); waitRound = Round hdr
                        in if curRound \<ge> waitRound then Inr (Some errIncomatibleHeader, n)
                           else (case transitionLocked tbl n
                                        (StateWaitingForBlock batch batchSpanCtx hdr) of
                                   Inl p \<Rightarrow> Inl p
                                 | Inr n' \<Rightarrow> Inr (None, n')))))
      | _ \<Rightarrow> Inr (Some errIncorrectState, n))"


text \<open>
  The two storage operations \<^verbatim>\<open>proposeBatchLocked\<close> builds, in the order the
  receipt is verified in, and the proposed results it starts from.
\<close>

definition applyOps :: "('sr, 'rc, 'cm) Collaborators \<Rightarrow> Block \<Rightarrow> ComputedBatch \<Rightarrow> ApplyOp list" where
  "applyOps co blk batch =
     [\<lparr>Root = emptyRoot co, ExpectedNewRoot = resIORoot (batchHeader batch),
       WriteLog = IOWriteLog batch\<rparr>,
      \<lparr>Root = StateRoot (Header blk), ExpectedNewRoot = resStateRoot (batchHeader batch),
       WriteLog = StateWriteLog batch\<rparr>]"

definition proposedResults :: "EpochSnapshot \<Rightarrow> ComputedBatch \<Rightarrow> ComputeBody" where
  "proposedResults epoch batch =
     \<lparr>CommitteeID = GetComputeCommitteeID epoch, bodyHeader = batchHeader batch,
      RakSig = batchRakSig batch, StorageReceipt = None\<rparr>"

text \<open>
  The closure of \<^verbatim>\<open>proposeBatchLocked\<close> that commits the write logs to storage and
  checks the receipt: it returns the error, or the proposed results with the receipt's
  signature attached, and the node with the storage call recorded.
\<close>

definition commitToStorage ::
  "('sr, 'rc, 'cm) Collaborators \<Rightarrow> CommonNode \<Rightarrow> 'cm Node \<Rightarrow> ComputeBody \<Rightarrow> ComputedBatch
     \<Rightarrow> panic + ((string + ComputeBody) \<times> 'cm Node)" where
  "commitToStorage co cn n results batch =
     (case CurrentBlock cn of
        None \<Rightarrow> Inl NilPointerDereference
      | Some blk \<Rightarrow>
          (let n1 = n\<lparr>effects := effects n @ [StorageApply (applyOps co blk batch)]\<rparr>
           in case ApplyBatch co (applyOps co blk batch) of
                Inl err \<Rightarrow> Inr (Inl err, n1)
              | Inr signedReceipt \<Rightarrow>
                  (case OpenReceipt co signedReceipt of
                     Inl err \<Rightarrow> Inr (Inl err, n1)
                   | Inr receipt \<Rightarrow>
                       (case VerifyStorageReceipt co results receipt of
                          Some err \<Rightarrow> Inr (Inl err, n1)
                        | None \<Rightarrow>
                            Inr (Inr (results
                                   \<lparr>StorageReceipt := Some (ReceiptSignature co signedReceipt)\<rparr>),
                                 n1)))))"

definition proposeBatchLocked ::
  "(StateName \<Rightarrow> StateName list) \<Rightarrow> ('sr, 'rc, 'cm) Collaborators \<Rightarrow> CommonNode \<Rightarrow> 'cm Node
     \<Rightarrow> ComputedBatch \<Rightarrow> panic + 'cm Node" where
  "proposeBatchLocked tbl co cn n batch =
     (case state n of
        StateProcessingBatch stBatch batchSpanCtx batchStartTime \<Rightarrow>
          (let epoch = GetEpochSnapshot cn
           in case commitToStorage co cn n (proposedResults epoch batch) batch of
                Inl p \<Rightarrow> Inl p
              | Inr (Inl err, n1) \<Rightarrow> abortBatchLocked tbl n1 (errExternal err)
              | Inr (Inr results, n1) \<Rightarrow>
                  (case SignComputeCommitment co results of
                     Inl err \<Rightarrow> abortBatchLocked tbl n1 (errExternal err)
                   | Inr commit \<Rightarrow>
                       (case PublishComputeFinished co batchSpanCtx commit of
                          Some err \<Rightarrow> abortBatchLocked tbl n1 (errExternal err)
                        | None \<Rightarrow>
                            (case transitionLocked tbl
                                    (n1\<lparr>effects := effects n1 @ [Published commit]\<rparr>)
                                    (StateWaitingForFinalize batchStartTime) of
                               Inl p \<Rightarrow> Inl p
                             | Inr n2 \<Rightarrow>
                                 if IsMergeMember epoch
                                 then (if \<not> mergeNodePresent co then Inr n2
                                       else Inr (n2\<lparr>effects := effects n2 @
                                              [HandleResultsFromComputeWorker batchSpanCtx commit]\<rparr>))
                                 else Inr n2))))
      | _ \<Rightarrow> Inl TypeAssertionFailed)"




section \<open>Example inputs of the committee node\<close>

text \<open>A digest that reads the round only; enough to tell the example headers apart.\<close>

definition roundHash :: "Header \<Rightarrow> Hash" where
  "roundHash h = ucast (Round h)"

definition memberEpoch :: EpochSnapshot where
  "memberEpoch = \<lparr>IsComputeMember = True, IsComputeBackupWorker = False, IsMergeMember = True,
     GetComputeCommitteeID = 0\<rparr>"

definition outsiderEpoch :: EpochSnapshot where
  "outsiderEpoch = \<lparr>IsComputeMember = False, IsComputeBackupWorker = False,
     IsMergeMember = False, GetComputeCommitteeID = 0\<rparr>"

definition exampleCommonNode :: "EpochSnapshot \<Rightarrow> CommonNode" where
  "exampleCommonNode epoch = \<lparr>CurrentBlock = Some \<lparr>Header = headerOf 0 False\<rparr>, RuntimeID = 0,
     GetEpochSnapshot = epoch\<rparr>"

definition waitingNode :: "unit Node" where
  "waitingNode = \<lparr>state = StateWaitingForBatch, effects = []\<rparr>"

definition processingNode :: "unit Node" where
  "processingNode = \<lparr>state = StateProcessingBatch [] 0 5, effects = []\<rparr>"

definition exampleBatch :: ComputedBatch where
  "exampleBatch = \<lparr>batchHeader = \<lparr>resIORoot = 1, resStateRoot = 2\<rparr>, IOWriteLog = [],
     StateWriteLog = [], batchRakSig = 0\<rparr>"

text \<open>Collaborators whose storage rejects every batch; all the others accept.\<close>

definition failingStorage :: "(unit, unit, unit) Collaborators" where
  "failingStorage = \<lparr>emptyRoot = 0, ApplyBatch = (\<lambda>ops. Inl ''storage unavailable''),
     OpenReceipt = (\<lambda>sr. Inr ()), VerifyStorageReceipt = (\<lambda>body rc. None),
     ReceiptSignature = (\<lambda>sr. \<lparr>PublicKey = 0, RawSignature = 0\<rparr>),
     SignComputeCommitment = (\<lambda>body. Inr ()), PublishComputeFinished = (\<lambda>sp cm. None),
     mergeNodePresent = True\<rparr>"

section \<open>Transaction pool (go/runtime/txpool/txpool.go)\<close>

text \<open>
  The pool is a record of the fields of \<^verbatim>\<open>txPool\<close>; each method takes the pool and
  returns it updated. The four ring channels of capacity one are flags: writing to one
  sets the flag. What the pool sends out (a result on a notify channel, a published
  transaction, a broadcast, a call of the scheduler that changes it) is appended to the
  field \<open>emitted\<close> in the order of the calls. Logging and metrics are left out. The hash
  function, the runtime host, the publisher and the clock are the fields of \<open>TxPoolEnv\<close>.
\<close>

record TransactionMeta =
  Local :: bool
  Discard :: bool
  Recheck :: bool

record Config =
  MaxPoolSize :: "64 word"
  MaxCheckTxBatchSize :: "64 word"
  MaxLastSeenCacheSize :: "64 word"
  RepublishInterval :: nat
  MaxRepublishBatchSize :: "64 word"
  RecheckInterval :: "64 word"

datatype Weight = WeightCount | WeightSizeBytes | WeightConsensusMessages | WeightCustom string

fun IsCustom :: "Weight \<Rightarrow> bool" where
  "IsCustom (WeightCustom name) = True"
| "IsCustom w = False"

text \<open>
  Modelled from the spec: the result of a runtime check (a success flag and the consumed
  weights) and the checked transaction (fingerprint, raw bytes, weights), whose packages
  are not at hand. The fingerprint of a transaction is the hash of its bytes. A map of
  weights is an association list here.
\<close>

record CheckTxResult =
  IsSuccess :: bool
  resultWeights :: "(Weight \<times> 64 word) list"

record CheckedTransaction =
  ctHash :: Hash
  ctRaw :: bytes
  ctWeights :: "(Weight \<times> 64 word) list"

definition ToCheckedTransaction ::
  "(bytes \<Rightarrow> Hash) \<Rightarrow> CheckTxResult \<Rightarrow> bytes \<Rightarrow> CheckedTransaction" where
  "ToCheckedTransaction hashOf res raw =
     \<lparr>ctHash = hashOf raw, ctRaw = raw, ctWeights = resultWeights res\<rparr>"

datatype pool_error =
  ErrQueueFull
  | ErrDuplicate
  | ErrExceedsLimit
  | ErrUnsupportedAlgorithm
  | ErrAlgorithmUpdateNotSupported
  | ErrCreateScheduler pool_error
  | ErrUpdateParameters pool_error
  | ErrUpdateScheduler pool_error
  | ErrNoCurrentBlock
  | ErrShuttingDown
  | ErrContextDone

subsection \<open>The seen cache\<close>

text \<open>
  Modelled from the spec: the seen cache, a bounded LRU from fingerprint to the time of the
  last publication, with \<open>peek\<close>, \<open>put\<close> and \<open>clear\<close>; the capacity is enforced on
  \<open>put\<close> and the least recently used entry is evicted. The entries are kept most recent
  first. The package of the cache is not at hand.
\<close>

record SeenCache =
  cacheCapacity :: nat
  cacheEntries :: "(Hash \<times> Time) list"

definition Peek :: "SeenCache \<Rightarrow> Hash \<Rightarrow> Time option" where
  "Peek c h = map_of (cacheEntries c) h"

definition Put :: "SeenCache \<Rightarrow> Hash \<Rightarrow> Time \<Rightarrow> SeenCache" where
  "Put c h ts =
     c\<lparr>cacheEntries :=
         take (cacheCapacity c) ((h, ts) # filter (\<lambda>e. fst e \<noteq> h) (cacheEntries c))\<rparr>"

definition ClearCache :: "SeenCache \<Rightarrow> SeenCache" where
  "ClearCache c = c\<lparr>cacheEntries := []\<rparr>"

subsection \<open>The check queue\<close>

text \<open>
  Modelled from the spec: the check queue, a bounded FIFO of pending transactions without
  two entries of the same fingerprint; \<open>add\<close> fails with Duplicate or QueueFull,
  \<open>get_batch\<close> returns up to the maximal batch size of entries in insertion order and
  leaves them in the queue, \<open>remove_batch\<close> removes the given entries. The file of the
  queue is not at hand; the fields of \<^verbatim>\<open>pendingTx\<close> are those txpool.go sets. A notify
  channel is the number it was created with.
\<close>

record pendingTx =
  Tx :: bytes
  TxHash :: Hash
  Meta :: TransactionMeta
  NotifyCh :: "nat option"

record checkTxQueue =
  queueMaxSize :: nat
  queueMaxBatchSize :: nat
  pending :: "pendingTx list"

definition newCheckTxQueue :: "64 word \<Rightarrow> 64 word \<Rightarrow> checkTxQueue" where
  "newCheckTxQueue maxSize maxBatchSize =
     \<lparr>queueMaxSize = unat maxSize, queueMaxBatchSize = unat maxBatchSize, pending = []\<rparr>"

definition Add :: "checkTxQueue \<Rightarrow> pendingTx \<Rightarrow> pool_error + checkTxQueue" where
  "Add q tx =
     (if TxHash tx \<in> set (map TxHash (pending q)) then Inl ErrDuplicate
      else if length (pending q) \<ge> queueMaxSize q then Inl ErrQueueFull
      else Inr (q\<lparr>pending := pending q @ [tx]\<rparr>))"

definition GetBatch :: "checkTxQueue \<Rightarrow> pendingTx list" where
  "GetBatch q = take (queueMaxBatchSize q) (pending q)"

definition RemoveBatch :: "checkTxQueue \<Rightarrow> pendingTx list \<Rightarrow> checkTxQueue" where
  "RemoveBatch q batch =
     q\<lparr>pending := filter (\<lambda>tx. TxHash tx \<notin> set (map TxHash batch)) (pending q)\<rparr>"

definition Size :: "checkTxQueue \<Rightarrow> nat" where
  "Size q = length (pending q)"

subsection \<open>The scheduling queue\<close>

text \<open>
  Modelled from the spec: the scheduling queue of the one algorithm the specification
  knows, FIFO with weight caps. \<open>queue\<close> rejects a fingerprint that is queued already
  (Duplicate), a transaction when the queue is at its capacity (QueueFull) and one of which
  a weight is above the limit of a round (ExceedsLimit); \<open>remove_batch\<close> ignores hashes
  that are not queued; \<open>update_parameters\<close> replaces the limits. The scheduling
  package is not at hand.
\<close>

record Scheduler =
  schedName :: string
  schedMaxPoolSize :: nat
  schedLimits :: "Weight \<rightharpoonup> 64 word"
  schedQueue :: "CheckedTransaction list"

definition exceedsLimit :: "(Weight \<rightharpoonup> 64 word) \<Rightarrow> CheckedTransaction \<Rightarrow> bool" where
  "exceedsLimit limits tx =
     list_ex (\<lambda>(w, v). case limits w of None \<Rightarrow> False | Some l \<Rightarrow> l < v) (ctWeights tx)"

definition schedulingNew ::
  "string list \<Rightarrow> 64 word \<Rightarrow> string \<Rightarrow> (Weight \<rightharpoonup> 64 word) \<Rightarrow> pool_error + Scheduler" where
  "schedulingNew supported maxPoolSize algorithm limits =
     (if algorithm \<in> set supported
      then Inr \<lparr>schedName = algorithm, schedMaxPoolSize = unat maxPoolSize,
               schedLimits = limits, schedQueue = []\<rparr>
      else Inl ErrUnsupportedAlgorithm)"

definition QueueTx :: "Scheduler \<Rightarrow> CheckedTransaction \<Rightarrow> pool_error + Scheduler" where
  "QueueTx s tx =
     (if ctHash tx \<in> set (map ctHash (schedQueue s)) then Inl ErrDuplicate
      else if length (schedQueue s) \<ge> schedMaxPoolSize s then Inl ErrQueueFull
      else if exceedsLimit (schedLimits s) tx then Inl ErrExceedsLimit
      else Inr (s\<lparr>schedQueue := schedQueue s @ [tx]\<rparr>))"

definition schedRemoveTxBatch :: "Scheduler \<Rightarrow> Hash list \<Rightarrow> Scheduler" where
  "schedRemoveTxBatch s hashes =
     s\<lparr>schedQueue := filter (\<lambda>tx. ctHash tx \<notin> set hashes) (schedQueue s)\<rparr>"

definition GetTransactions :: "Scheduler \<Rightarrow> CheckedTransaction list" where
  "GetTransactions s = schedQueue s"

definition UnscheduledSize :: "Scheduler \<Rightarrow> nat" where
  "UnscheduledSize s = length (schedQueue s)"

definition UpdateParameters ::
  "Scheduler \<Rightarrow> string \<Rightarrow> (Weight \<rightharpoonup> 64 word) \<Rightarrow> pool_error + Scheduler" where
  "UpdateParameters s algorithm limits =
     (if algorithm \<noteq> schedName s then Inl ErrAlgorithmUpdateNotSupported
      else Inr (s\<lparr>schedLimits := limits\<rparr>))"

subsection \<open>The pool\<close>

text \<open>The fields of the runtime descriptor and of the block information the pool reads.\<close>

record TxnSchedulerParameters =
  Algorithm :: string
  MaxBatchSize :: "64 word"
  MaxBatchSizeBytes :: "64 word"
  BatchFlushTimeout :: nat

record ExecutorParameters =
  MaxMessages :: "32 word"

record Runtime =
  Executor :: ExecutorParameters
  TxnScheduler :: TxnSchedulerParameters

record BlockInfo =
  RuntimeBlock :: Block
  ConsensusBlock :: nat
  Epoch :: "64 word"
  ActiveDescriptor :: Runtime

record TxPoolEnv =
  NewFromBytes :: "bytes \<Rightarrow> Hash"
  CheckTx :: "BlockInfo \<Rightarrow> bytes list \<Rightarrow> string + CheckTxResult list"
  PublishTx :: "bytes \<Rightarrow> string option"
  timeNow :: Time
  supportedAlgorithms :: "string list"

datatype pool_effect =
  Notify nat CheckTxResult
  | CloseNotify nat
  | PublishedTx bytes
  | SchedulerRemoveTxBatch "Hash list"
  | CheckedTransactions "CheckedTransaction list"
  | SchedulerNotify bool

record txPool =
  cfg :: Config
  seenCache :: SeenCache
  checkTxCh :: bool
  checkTxQueue :: checkTxQueue
  recheckTxCh :: bool
  scheduler :: "Scheduler option"
  schedulerTicker :: nat
  blockInfo :: "BlockInfo option"
  lastRecheckRound :: "64 word"
  epoCh :: bool
  republishCh :: bool
  roundWeightLimits :: "Weight \<rightharpoonup> 64 word"
  initCh :: bool
  nextNotifyCh :: nat
  emitted :: "pool_effect list"

text \<open>\<^verbatim>\<open>New\<close>: the ticker starts at one hour (in seconds here).\<close>

definition New :: "Config \<Rightarrow> txPool" where
  "New c =
     \<lparr>cfg = c,
      seenCache = \<lparr>cacheCapacity = unat (MaxLastSeenCacheSize c), cacheEntries = []\<rparr>,
      checkTxCh = False,
      checkTxQueue = newCheckTxQueue (MaxPoolSize c) (MaxCheckTxBatchSize c),
      recheckTxCh = False,
      scheduler = None,
      schedulerTicker = 3600,
      blockInfo = None,
      lastRecheckRound = 0,
      epoCh = False,
      republishCh = False,
      roundWeightLimits = Map.empty,
      initCh = False,
      nextNotifyCh = 0,
      emitted = []\<rparr>"

definition submitTx ::
  "TxPoolEnv \<Rightarrow> txPool \<Rightarrow> bytes \<Rightarrow> TransactionMeta \<Rightarrow> nat option
     \<Rightarrow> pool_error option \<times> txPool" where
  "submitTx env t rawTx meta notifyCh =
     (let txHash = NewFromBytes env rawTx
      in if Peek (seenCache t) txHash \<noteq> None \<and> \<not> Recheck meta then (None, t)
         else
           (let tx = \<lparr>Tx = rawTx, TxHash = txHash, Meta = meta, NotifyCh = notifyCh\<rparr>
            in case Add (checkTxQueue t) tx of
                 Inl err \<Rightarrow> (Some err, t)
               | Inr q \<Rightarrow> (None, t\<lparr>checkTxQueue := q, checkTxCh := True\<rparr>)))"

definition SubmitTxNoWait ::
  "TxPoolEnv \<Rightarrow> txPool \<Rightarrow> bytes \<Rightarrow> TransactionMeta \<Rightarrow> pool_error option \<times> txPool" where
  "SubmitTxNoWait env t tx meta = submitTx env t tx meta None"

text \<open>
  \<^verbatim>\<open>SubmitTx\<close> is a call that may block, so it is two steps. The first makes the
  notify channel and calls \<^verbatim>\<open>submitTx\<close>: it returns the error, or the channel the call
  now waits on. The second is the \<^verbatim>\<open>select\<close>: the list of what the call may do next,
  given whether the caller's context is done and whether the pool is stopped. A result is
  there to receive once the check worker has sent it on the channel. The call is blocked
  when no case of the \<^verbatim>\<open>select\<close> is ready.
\<close>

definition SubmitTx_begin ::
  "TxPoolEnv \<Rightarrow> txPool \<Rightarrow> bytes \<Rightarrow> TransactionMeta \<Rightarrow> (pool_error + nat) \<times> txPool" where
  "SubmitTx_begin env t rawTx meta =
     (let notifyCh = nextNotifyCh t;
          t1 = t\<lparr>nextNotifyCh := notifyCh + 1\<rparr>
      in case submitTx env t1 rawTx meta (Some notifyCh) of
           (Some err, t2) \<Rightarrow> (Inl err, t2\<lparr>emitted := emitted t2 @ [CloseNotify notifyCh]\<rparr>)
         | (None, t2) \<Rightarrow> (Inr notifyCh, t2))"

fun received :: "pool_effect list \<Rightarrow> nat \<Rightarrow> CheckTxResult option" where
  "received [] ch = None"
| "received (Notify c res # es) ch = (if c = ch then Some res else received es ch)"
| "received (e # es) ch = received es ch"

datatype submit_outcome = Blocked | Returned "pool_error + CheckTxResult"

definition SubmitTx_select :: "bool \<Rightarrow> bool \<Rightarrow> txPool \<Rightarrow> nat \<Rightarrow> submit_outcome list" where
  "SubmitTx_select ctxDone stopped t notifyCh =
     (let ready =
            (if ctxDone then [Returned (Inl ErrContextDone)] else [])
            @ (if stopped then [Returned (Inl ErrShuttingDown)] else [])
            @ (case received (emitted t) notifyCh of
                 None \<Rightarrow> []
               | Some result \<Rightarrow> [Returned (Inr result)])
      in if ready = [] then [Blocked] else ready)"

definition RemoveTxBatch :: "txPool \<Rightarrow> Hash list \<Rightarrow> panic + txPool" where
  "RemoveTxBatch t txs =
     (case scheduler t of
        None \<Rightarrow> Inl NilPointerDereference
      | Some s \<Rightarrow>
          Inr (t\<lparr>scheduler := Some (schedRemoveTxBatch s txs),
                emitted := emitted t @ [SchedulerRemoveTxBatch txs]\<rparr>))"

definition updateScheduler ::
  "TxPoolEnv \<Rightarrow> txPool \<Rightarrow> BlockInfo \<Rightarrow> pool_error option \<times> txPool" where
  "updateScheduler env t bi =
     (let params = TxnScheduler (ActiveDescriptor bi);
          limits = (roundWeightLimits t)
            (WeightConsensusMessages \<mapsto> ucast (MaxMessages (Executor (ActiveDescriptor bi))),
             WeightSizeBytes \<mapsto> MaxBatchSizeBytes params,
             WeightCount \<mapsto> MaxBatchSize params);
          t1 = t\<lparr>roundWeightLimits := limits\<rparr>
      in case scheduler t1 of
           None \<Rightarrow>
             (case schedulingNew (supportedAlgorithms env) (MaxPoolSize (cfg t1))
                     (Algorithm params) limits of
                Inl err \<Rightarrow> (Some (ErrCreateScheduler err), t1)
              | Inr sched \<Rightarrow>
                  (None, t1\<lparr>scheduler := Some sched, initCh := True,
                            schedulerTicker := BatchFlushTimeout params\<rparr>))
         | Some s \<Rightarrow>
             if Algorithm params \<noteq> schedName s then (Some ErrAlgorithmUpdateNotSupported, t1)
             else
               (case UpdateParameters s (schedName s) limits of
                  Inl err \<Rightarrow> (Some (ErrUpdateParameters err), t1)
                | Inr s' \<Rightarrow>
                    (None, t1\<lparr>scheduler := Some s',
                              schedulerTicker := BatchFlushTimeout params\<rparr>)))"

definition recordBlock :: "txPool \<Rightarrow> BlockInfo \<Rightarrow> pool_error option \<times> txPool" where
  "recordBlock t bi =
     (let t1 = t\<lparr>blockInfo := Some bi\<rparr>
      in if Round (Header (RuntimeBlock bi)) - lastRecheckRound t1 > RecheckInterval (cfg t1)
         then (None, t1\<lparr>recheckTxCh := True,
                        lastRecheckRound := Round (Header (RuntimeBlock bi))\<rparr>)
         else (None, t1))"

definition ProcessBlock ::
  "TxPoolEnv \<Rightarrow> txPool \<Rightarrow> BlockInfo \<Rightarrow> pool_error option \<times> txPool" where
  "ProcessBlock env t bi =
     (if blockInfo t = None \<or> HeaderType (Header (RuntimeBlock bi)) = EpochTransition
      then (case updateScheduler env t bi of
              (Some err, t1) \<Rightarrow> (Some (ErrUpdateScheduler err), t1)
            | (None, t1) \<Rightarrow> recordBlock (t1\<lparr>epoCh := True\<rparr>) bi)
      else recordBlock t bi)"

definition getCurrentBlockInfo :: "txPool \<Rightarrow> pool_error + BlockInfo" where
  "getCurrentBlockInfo t =
     (case blockInfo t of None \<Rightarrow> Inl ErrNoCurrentBlock | Some bi \<Rightarrow> Inr bi)"

text \<open>
  The first loop of \<^verbatim>\<open>checkTxBatch\<close>, over the results with the batch beside them: a
  result without a batch entry is an index out of range. It sends each result on the
  entry's notify channel, and gathers the checked transactions to queue, each with the
  flag of its origin, and the hashes to unschedule.
\<close>

fun checkResults ::
  "TxPoolEnv \<Rightarrow> CheckTxResult list \<Rightarrow> pendingTx list
     \<Rightarrow> txPool \<times> (CheckedTransaction \<times> bool) list \<times> Hash list
     \<Rightarrow> panic + (txPool \<times> (CheckedTransaction \<times> bool) list \<times> Hash list)" where
  "checkResults env [] batch acc = Inr acc"
| "checkResults env (res # results) [] acc = Inl IndexOutOfRange"
| "checkResults env (res # results) (item # batch) (t, txs, unschedule) =
     (let t1 = (case NotifyCh item of
                  None \<Rightarrow> t
                | Some ch \<Rightarrow> t\<lparr>emitted := emitted t @ [Notify ch res, CloseNotify ch]\<rparr>)
      in if \<not> IsSuccess res
         then (if Recheck (Meta item)
               then checkResults env results batch (t1, txs, unschedule @ [TxHash item])
               else checkResults env results batch (t1, txs, unschedule))
         else if Discard (Meta item) \<or> Recheck (Meta item)
         then checkResults env results batch (t1, txs, unschedule)
         else checkResults env results batch
                (t1, txs @ [(ToCheckedTransaction (NewFromBytes env) res (Tx item),
                             Local (Meta item))], unschedule))"

text \<open>
  The second loop: each checked transaction is queued; one the scheduler rejects is
  skipped; a local one is published; the fingerprint goes to the seen cache with the time
  of publication, or with the zero time when the publication failed.
\<close>

fun queueChecked ::
  "TxPoolEnv \<Rightarrow> (CheckedTransaction \<times> bool) list \<Rightarrow> txPool \<Rightarrow> panic + txPool" where
  "queueChecked env [] t = Inr t"
| "queueChecked env ((tx, isLocal) # txs) t =
     (case scheduler t of
        None \<Rightarrow> Inl NilPointerDereference
      | Some s \<Rightarrow>
          (case QueueTx s tx of
             Inl err \<Rightarrow> queueChecked env txs t
           | Inr s' \<Rightarrow>
               (let t1 = t\<lparr>scheduler := Some s'\<rparr>
                in if isLocal
                   then (case PublishTx env (ctRaw tx) of
                           Some err \<Rightarrow>
                             queueChecked env txs
                               (t1\<lparr>republishCh := True,
                                   seenCache := Put (seenCache t1) (ctHash tx) 0\<rparr>)
                         | None \<Rightarrow>
                             queueChecked env txs
                               (t1\<lparr>emitted := emitted t1 @ [PublishedTx (ctRaw tx)],
                                   seenCache := Put (seenCache t1) (ctHash tx) (timeNow env)\<rparr>))
                   else queueChecked env txs
                          (t1\<lparr>seenCache := Put (seenCache t1) (ctHash tx) (timeNow env)\<rparr>))))"

definition checkTxBatch :: "TxPoolEnv \<Rightarrow> txPool \<Rightarrow> panic + txPool" where
  "checkTxBatch env t =
     (let batch = GetBatch (checkTxQueue t)
      in if length batch = 0 then Inr t
         else
           (case getCurrentBlockInfo t of
              Inl err \<Rightarrow> Inr t
            | Inr bi \<Rightarrow>
                (case CheckTx env bi (map Tx batch) of
                   Inl err \<Rightarrow> Inr t
                 | Inr results \<Rightarrow>
                     (case checkResults env results batch
                             (t\<lparr>checkTxQueue := RemoveBatch (checkTxQueue t) batch\<rparr>, [], []) of
                        Inl p \<Rightarrow> Inl p
                      | Inr (t1, txs, unschedule) \<Rightarrow>
                          (case RemoveTxBatch t1 unschedule of
                             Inl p \<Rightarrow> Inl p
                           | Inr t2 \<Rightarrow>
                               if length txs = 0 then Inr t2
                               else
                                 (case queueChecked env txs t2 of
                                    Inl p \<Rightarrow> Inl p
                                  | Inr t3 \<Rightarrow>
                                      Inr (t3\<lparr>emitted := emitted t3 @
                                             [CheckedTransactions (map fst txs),
                                              SchedulerNotify False]\<rparr>)))))))"

text \<open>One round of the recheck worker: every scheduled transaction is submitted again.\<close>

fun recheckAll :: "TxPoolEnv \<Rightarrow> CheckedTransaction list \<Rightarrow> txPool \<Rightarrow> txPool" where
  "recheckAll env [] t = t"
| "recheckAll env (tx # txs) t =
     recheckAll env txs
       (snd (submitTx env t (ctRaw tx) \<lparr>Local = False, Discard = False, Recheck = True\<rparr> None))"

definition recheckCycle :: "TxPoolEnv \<Rightarrow> txPool \<Rightarrow> panic + txPool" where
  "recheckCycle env t =
     (case scheduler t of
        None \<Rightarrow> Inl NilPointerDereference
      | Some s \<Rightarrow> Inr (recheckAll env (GetTransactions s) t))"

text \<open>
  What the pool keeps true of its check queue: no two entries have the same fingerprint,
  and the fingerprint of an entry is the hash of its bytes.
\<close>

definition checkQueueInv :: "TxPoolEnv \<Rightarrow> checkTxQueue \<Rightarrow> bool" where
  "checkQueueInv env q =
     (distinct (map TxHash (pending q))
      \<and> list_all (\<lambda>tx. TxHash tx = NewFromBytes env (Tx tx)) (pending q))"

text \<open>
  A notify channel on which nothing was sent and that no entry of the check queue holds,
  among the channels made so far: nothing will be sent on it.
\<close>

definition deadChannel :: "txPool \<Rightarrow> nat \<Rightarrow> bool" where
  "deadChannel t ch =
     (received (emitted t) ch = None
      \<and> Some ch \<notin> set (map NotifyCh (pending (checkTxQueue t)))
      \<and> ch < nextNotifyCh t)"

section \<open>Example inputs of the transaction pool\<close>

text \<open>
  A fingerprint that is the length of the transaction, and a runtime that accepts a
  transaction when its first byte is not zero.
\<close>

definition lengthHash :: "bytes \<Rightarrow> Hash" where
  "lengthHash raw = of_nat (length raw)"

definition firstByteCheck :: "bytes \<Rightarrow> CheckTxResult" where
  "firstByteCheck raw = \<lparr>IsSuccess = (case raw of [] \<Rightarrow> False | b # bs \<Rightarrow> b \<noteq> 0),
     resultWeights = []\<rparr>"

definition exampleEnv :: TxPoolEnv where
  "exampleEnv = \<lparr>NewFromBytes = lengthHash,
     CheckTx = (\<lambda>bi raws. Inr (map firstByteCheck raws)),
     PublishTx = (\<lambda>raw. None), timeNow = 100, supportedAlgorithms = [''simple'']\<rparr>"

definition downEnv :: TxPoolEnv where
  "downEnv = exampleEnv\<lparr>CheckTx := (\<lambda>bi raws. Inl ''runtime unavailable'')\<rparr>"

definition exampleConfig :: Config where
  "exampleConfig = \<lparr>MaxPoolSize = 10, MaxCheckTxBatchSize = 10, MaxLastSeenCacheSize = 10,
     RepublishInterval = 60, MaxRepublishBatchSize = 32, RecheckInterval = 32\<rparr>"

definition exampleBlockInfo :: "HeaderType \<Rightarrow> string \<Rightarrow> BlockInfo" where
  "exampleBlockInfo ty algorithm =
     \<lparr>RuntimeBlock = \<lparr>Header = (headerOf 0 True)\<lparr>HeaderType := ty\<rparr>\<rparr>, ConsensusBlock = 1,
      Epoch = 1,
      ActiveDescriptor =
        \<lparr>Executor = \<lparr>MaxMessages = 32\<rparr>,
         TxnScheduler = \<lparr>Algorithm = algorithm, MaxBatchSize = 100, MaxBatchSizeBytes = 1000,
                          BatchFlushTimeout = 1\<rparr>\<rparr>\<rparr>"

definition exampleScheduler :: "CheckedTransaction list \<Rightarrow> Scheduler" where
  "exampleScheduler txs = \<lparr>schedName = ''simple'', schedMaxPoolSize = 10,
     schedLimits = Map.empty, schedQueue = txs\<rparr>"

text \<open>A pool that has seen its first block: the scheduler is there and nothing is queued.\<close>

definition readyPool :: txPool where
  "readyPool = (New exampleConfig)
     \<lparr>scheduler := Some (exampleScheduler []), initCh := True,
      blockInfo := Some (exampleBlockInfo Normal ''simple'')\<rparr>"

text \<open>The ready pool after a blocking submission of a local transaction.\<close>

definition pendingPool :: txPool where
  "pendingPool =
     snd (SubmitTx_begin exampleEnv readyPool [1]
            \<lparr>Local = True, Discard = False, Recheck = False\<rparr>)"

definition plainMeta :: TransactionMeta where
  "plainMeta = \<lparr>Local = False, Discard = False, Recheck = False\<rparr>"

text \<open>The ready pool whose seen cache holds the fingerprint of the transaction \<open>[1]\<close>.\<close>

definition seenPool :: txPool where
  "seenPool = readyPool\<lparr>seenCache := Put (seenCache readyPool) (lengthHash [1]) 100\<rparr>"

definition okResult :: CheckTxResult where
  "okResult = \<lparr>IsSuccess = True, resultWeights = []\<rparr>"

text \<open>
  A blocking submission that asks to discard the transaction after the check: the pool
  once it is queued, and the pool after the check-worker cycle.
\<close>

definition discardMeta :: TransactionMeta where
  "discardMeta = \<lparr>Local = False, Discard = True, Recheck = False\<rparr>"

definition discardPool :: txPool where
  "discardPool = readyPool
     \<lparr>nextNotifyCh := 1, checkTxCh := True,
      checkTxQueue := \<lparr>queueMaxSize = 10, queueMaxBatchSize = 10,
        pending = [\<lparr>Tx = [1], TxHash = 1, Meta = discardMeta, NotifyCh = Some 0\<rparr>]\<rparr>\<rparr>"

definition discardedPool :: txPool where
  "discardedPool = readyPool
     \<lparr>nextNotifyCh := 1, checkTxCh := True,
      emitted := [Notify 0 okResult, CloseNotify 0, SchedulerRemoveTxBatch []]\<rparr>"

text \<open>The pool with the pending local transaction, after the check-worker cycle.\<close>

definition checkedPool :: txPool where
  "checkedPool = readyPool
     \<lparr>nextNotifyCh := 1, checkTxCh := True,
      scheduler := Some (exampleScheduler [\<lparr>ctHash = 1, ctRaw = [1], ctWeights = []\<rparr>]),
      seenCache := \<lparr>cacheCapacity = 10, cacheEntries = [(1, 100)]\<rparr>,
      emitted := [Notify 0 okResult, CloseNotify 0, SchedulerRemoveTxBatch [],
                  PublishedTx [1],
                  CheckedTransactions [\<lparr>ctHash = 1, ctRaw = [1], ctWeights = []\<rparr>],
                  SchedulerNotify False]\<rparr>"

text \<open>
  A pool whose scheduler holds the transaction \<open>[0, 5]\<close>, which the runtime now rejects,
  queued for a recheck; and the pool after the check-worker cycle.
\<close>

definition recheckMeta :: TransactionMeta where
  "recheckMeta = \<lparr>Local = False, Discard = False, Recheck = True\<rparr>"

definition recheckPool :: txPool where
  "recheckPool = readyPool
     \<lparr>scheduler := Some (exampleScheduler [\<lparr>ctHash = 2, ctRaw = [0, 5], ctWeights = []\<rparr>]),
      checkTxCh := True,
      checkTxQueue := \<lparr>queueMaxSize = 10, queueMaxBatchSize = 10,
        pending = [\<lparr>Tx = [0, 5], TxHash = 2, Meta = recheckMeta, NotifyCh = None\<rparr>]\<rparr>\<rparr>"

definition recheckedPool :: txPool where
  "recheckedPool = readyPool
     \<lparr>checkTxCh := True, emitted := [SchedulerRemoveTxBatch [2]]\<rparr>"

section \<open>Properties of block headers\<close>

text \<open>
  C3. For every header \<open>h\<close>, \<^verbatim>\<open>VerifyStorageReceiptSignatures\<close> succeeds exactly when
  the storage signatures of \<open>h\<close> verify, under the receipt signature context, over the
  encoding of the receipt body with version 1, the header's namespace and round, the root
  types IO and State and the roots \<open>IORoot h\<close> and \<open>StateRoot h\<close>; in every other case it
  returns the verification-failed error.
\<close>

theorem VerifyStorageReceiptSignatures_iff:
  "(VerifyStorageReceiptSignatures verifyManyToOne receiptCtx marshal h = Inr ()) =
     verifyManyToOne receiptCtx
       (marshal \<lparr>rbVersion = 1, rbNamespace = Namespace h, rbRound = Round h,
                 rbRootTypes = [RootTypeIO, RootTypeState],
                 rbRoots = [IORoot h, StateRoot h]\<rparr>)
       (StorageSignatures h)
   \<and> (VerifyStorageReceiptSignatures verifyManyToOne receiptCtx marshal h = Inl ErrVerifyFailed) =
     (\<not> verifyManyToOne receiptCtx
       (marshal \<lparr>rbVersion = 1, rbNamespace = Namespace h, rbRound = Round h,
                 rbRootTypes = [RootTypeIO, RootTypeState],
                 rbRoots = [IORoot h, StateRoot h]\<rparr>)
       (StorageSignatures h))"
  by (simp add: VerifyStorageReceiptSignatures_def RootTypesForStorageReceipt_def
      RootsForStorageReceipt_def)



section \<open>Properties of the committee node\<close>










text \<open>
  C7. When the controller is in WaitingForBatch and an external batch arrives: a node that
  is no compute member of the current epoch rejects it with the incorrect-role error and
  is unchanged. A compute member reads the current block (with none known, this is a nil
  dereference): if the current block's header mostly-equals the batch's header, the
  controller moves to ProcessingBatch and starts the worker, or to WaitingForEvent when
  the node is a backup worker; else if the current block's round is strictly below the
  round of the batch's header, it moves to WaitingForBlock and keeps the batch and the
  header; else the batch is rejected with the incompatible-header error and the node is
  unchanged.
\<close>

theorem handleExternalBatchLocked_WaitingForBatch:
  assumes "state n = StateWaitingForBatch"
  shows "handleExternalBatchLocked validStateTransitions NewFrom cn now n batch batchSpanCtx hdr =
     (if \<not> IsComputeMember (GetEpochSnapshot cn) then Inr (Some errIncorrectRole, n)
      else case CurrentBlock cn of
        None \<Rightarrow> Inl NilPointerDereference
      | Some blk \<Rightarrow>
          if MostlyEqual NewFrom (Header blk) hdr
          then (if IsComputeBackupWorker (GetEpochSnapshot cn)
                then Inr (None, n\<lparr>state := StateWaitingForEvent batch batchSpanCtx,
                         effects := effects n @
                           [BroadcastState (StateWaitingForEvent batch batchSpanCtx),
                            BumpReselect]\<rparr>)
                else Inr (None, n\<lparr>state := StateProcessingBatch batch batchSpanCtx now,
                         effects := effects n @
                           [BroadcastState (StateProcessingBatch batch batchSpanCtx now),
                            BumpReselect, StartWorker batch blk]\<rparr>))
          else if Round (Header blk) < Round hdr
          then Inr (None, n\<lparr>state := StateWaitingForBlock batch batchSpanCtx hdr,
                     effects := effects n @
                       [BroadcastState (StateWaitingForBlock batch batchSpanCtx hdr),
                        BumpReselect]\<rparr>)
          else Inr (Some errIncomatibleHeader, n))"
  using assms
  by (auto simp: handleExternalBatchLocked_def maybeStartProcessingBatchLocked_def
      startProcessingBatchLocked_def transitionLocked_def Let_def not_less
      split: option.splits)

text \<open>A member in WaitingForBatch at round 0 receives a batch built on round 1.\<close>

theorem handleExternalBatchLocked_WaitingForBatch_witness:
  "handleExternalBatchLocked validStateTransitions roundHash (exampleCommonNode memberEpoch) 7
       waitingNode [] 0 (headerOf 0 True) =
     Inr (None, waitingNode\<lparr>state := StateWaitingForBlock [] 0 (headerOf 0 True),
                 effects := [BroadcastState (StateWaitingForBlock [] 0 (headerOf 0 True)),
                             BumpReselect]\<rparr>)"
proof -
  have st: "state waitingNode = StateWaitingForBatch"
    by (simp add: waitingNode_def)
  show ?thesis
    using handleExternalBatchLocked_WaitingForBatch [OF st, of roundHash
        "exampleCommonNode memberEpoch" 7 "[]" 0 "headerOf 0 True"]
    by (simp add: MostlyEqual_def EncodedHash_def roundHash_def headerOf_def waitingNode_def
        exampleCommonNode_def memberEpoch_def)
qed

text \<open>
  A node in WaitingForBatch that is no compute member of the current epoch rejects a batch
  whose header mostly-equals the current block's header with the incorrect-role error.
\<close>

theorem handleExternalBatchLocked_incorrect_role:
  "state waitingNode = StateWaitingForBatch
   \<and> MostlyEqual roundHash (headerOf 0 False) (headerOf 0 False)
   \<and> handleExternalBatchLocked validStateTransitions roundHash (exampleCommonNode outsiderEpoch) 0
       waitingNode [] 0 (headerOf 0 False) = Inr (Some errIncorrectRole, waitingNode)"
  by (simp add: handleExternalBatchLocked_def waitingNode_def exampleCommonNode_def
      outsiderEpoch_def MostlyEqual_def)

text \<open>
  C8. In \<^verbatim>\<open>proposeBatchLocked\<close>, with a batch being processed: if the storage apply
  fails, or the signed receipt does not open, or the receipt fails verification, or the
  publication of the signed commitment fails, then the batch is aborted (its context is
  cancelled), the controller ends in WaitingForFinalize, and nothing is handed to the merge
  node: the effects are the storage call, the cancellation and the state broadcast.
\<close>

theorem proposeBatchLocked_failure_aborts:
  assumes st: "state n = StateProcessingBatch stBatch batchSpanCtx batchStartTime"
    and blk: "CurrentBlock cn = Some blk"
    and fail:
      "(\<exists>err. ApplyBatch co (applyOps co blk batch) = Inl err)
       \<or> (\<exists>sr err. ApplyBatch co (applyOps co blk batch) = Inr sr \<and> OpenReceipt co sr = Inl err)
       \<or> (\<exists>sr rc err. ApplyBatch co (applyOps co blk batch) = Inr sr \<and> OpenReceipt co sr = Inr rc
             \<and> VerifyStorageReceipt co (proposedResults (GetEpochSnapshot cn) batch) rc = Some err)
       \<or> (\<exists>sr rc commit err. ApplyBatch co (applyOps co blk batch) = Inr sr
             \<and> OpenReceipt co sr = Inr rc
             \<and> VerifyStorageReceipt co (proposedResults (GetEpochSnapshot cn) batch) rc = None
             \<and> SignComputeCommitment co
                  ((proposedResults (GetEpochSnapshot cn) batch)
                     \<lparr>StorageReceipt := Some (ReceiptSignature co sr)\<rparr>) = Inr commit
             \<and> PublishComputeFinished co batchSpanCtx commit = Some err)"
  shows "proposeBatchLocked validStateTransitions co cn n batch =
     Inr (n\<lparr>state := StateWaitingForFinalize batchStartTime,
            effects := effects n @
              [StorageApply (applyOps co blk batch), CancelBatch,
               BroadcastState (StateWaitingForFinalize batchStartTime), BumpReselect]\<rparr>)"
  using fail
  by (auto simp: proposeBatchLocked_def commitToStorage_def abortBatchLocked_def
      transitionLocked_def st blk Let_def)

text \<open>A merge member with a merge node, whose storage rejects the batch.\<close>

theorem proposeBatchLocked_failure_aborts_witness:
  "proposeBatchLocked validStateTransitions failingStorage (exampleCommonNode memberEpoch)
       processingNode exampleBatch =
     Inr (processingNode\<lparr>state := StateWaitingForFinalize 5,
            effects :=
              [StorageApply (applyOps failingStorage \<lparr>Header = headerOf 0 False\<rparr> exampleBatch),
               CancelBatch, BroadcastState (StateWaitingForFinalize 5), BumpReselect]\<rparr>)"
proof -
  have st: "state processingNode = StateProcessingBatch [] 0 5"
    by (simp add: processingNode_def)
  have blk: "CurrentBlock (exampleCommonNode memberEpoch) = Some \<lparr>Header = headerOf 0 False\<rparr>"
    by (simp add: exampleCommonNode_def)
  have fail: "\<exists>err. ApplyBatch failingStorage
      (applyOps failingStorage \<lparr>Header = headerOf 0 False\<rparr> exampleBatch) = Inl err"
    by (simp add: failingStorage_def)
  show ?thesis
    using proposeBatchLocked_failure_aborts [OF st blk disjI1, OF fail]
    by (simp add: processingNode_def)
qed








lemma commitToStorage_effects:
  "commitToStorage co cn n results batch = Inr (r, n1) \<Longrightarrow> \<exists>es. n1 = n\<lparr>effects := es\<rparr>"
  by (auto simp: commitToStorage_def Let_def split: option.splits sum.splits)





section \<open>Properties of the transaction pool\<close>

text \<open>
  A transaction whose fingerprint is in the seen cache and that is no recheck is ignored:
  \<^verbatim>\<open>submitTx\<close> returns nil and the pool is as it was. The blocking call then waits on
  a channel that no entry of the check queue holds.
\<close>

lemma submitTx_seen:
  "Peek (seenCache t) (NewFromBytes env rawTx) \<noteq> None \<Longrightarrow> \<not> Recheck meta \<Longrightarrow>
     submitTx env t rawTx meta notifyCh = (None, t)"
  by (simp add: submitTx_def)

lemma SubmitTx_begin_seen:
  "Peek (seenCache t) (NewFromBytes env rawTx) \<noteq> None \<Longrightarrow> \<not> Recheck meta \<Longrightarrow>
     SubmitTx_begin env t rawTx meta =
       (Inr (nextNotifyCh t), t\<lparr>nextNotifyCh := nextNotifyCh t + 1\<rparr>)"
  by (simp add: SubmitTx_begin_def submitTx_def Let_def)

text \<open>
  C1, evaluated on a pool whose seen cache holds the fingerprint of the transaction: the
  submission that does not wait returns nil and leaves the pool as it was; the blocking
  submission enqueues nothing and wakes no worker either, but it does not return: with the
  caller's context alive and the pool running, no case of its \<^verbatim>\<open>select\<close> is ready, and
  the check worker, which finds an empty queue, sends nothing. The channel it waits on is
  dead, and stays so whatever the pool does next.
\<close>

theorem SubmitTx_seen_blocks:
  "Peek (seenCache seenPool) (NewFromBytes exampleEnv [1]) = Some 100
   \<and> SubmitTxNoWait exampleEnv seenPool [1] plainMeta = (None, seenPool)
   \<and> SubmitTx_begin exampleEnv seenPool [1] plainMeta = (Inr 0, seenPool\<lparr>nextNotifyCh := 1\<rparr>)
   \<and> SubmitTx_select False False (seenPool\<lparr>nextNotifyCh := 1\<rparr>) 0 = [Blocked]
   \<and> checkTxBatch exampleEnv (seenPool\<lparr>nextNotifyCh := 1\<rparr>) =
       Inr (seenPool\<lparr>nextNotifyCh := 1\<rparr>)
   \<and> deadChannel (seenPool\<lparr>nextNotifyCh := 1\<rparr>) 0"
proof -
  have peek: "Peek (seenCache seenPool) (NewFromBytes exampleEnv [1]) = Some 100"
    by (simp add: seenPool_def readyPool_def New_def Put_def Peek_def exampleEnv_def
        exampleConfig_def)
  have meta: "\<not> Recheck plainMeta"
    by (simp add: plainMeta_def)
  have next0: "nextNotifyCh seenPool = 0"
    by (simp add: seenPool_def readyPool_def New_def)
  have "SubmitTxNoWait exampleEnv seenPool [1] plainMeta = (None, seenPool)"
    using peek meta by (simp add: SubmitTxNoWait_def submitTx_seen)
  moreover have "SubmitTx_begin exampleEnv seenPool [1] plainMeta =
      (Inr 0, seenPool\<lparr>nextNotifyCh := 1\<rparr>)"
    using peek meta by (simp add: SubmitTx_begin_seen next0)
  moreover have "SubmitTx_select False False (seenPool\<lparr>nextNotifyCh := 1\<rparr>) 0 = [Blocked]"
    by (simp add: SubmitTx_select_def seenPool_def readyPool_def New_def)
  moreover have "checkTxBatch exampleEnv (seenPool\<lparr>nextNotifyCh := 1\<rparr>) =
      Inr (seenPool\<lparr>nextNotifyCh := 1\<rparr>)"
    by (simp add: checkTxBatch_def GetBatch_def seenPool_def readyPool_def New_def
        newCheckTxQueue_def)
  moreover have "deadChannel (seenPool\<lparr>nextNotifyCh := 1\<rparr>) 0"
    by (simp add: deadChannel_def seenPool_def readyPool_def New_def newCheckTxQueue_def)
  ultimately show ?thesis
    using peek by simp
qed

text \<open>
  C5. When the runtime host's check of a whole batch returns an error, the check-worker
  cycle returns the pool as it was: the batch stays in the check queue, no notify channel
  receives a result, and the scheduling queue and the seen cache are untouched.
\<close>

theorem checkTxBatch_runtime_error:
  assumes "blockInfo t = Some bi"
    and "CheckTx env bi (map Tx (GetBatch (checkTxQueue t))) = Inl err"
  shows "checkTxBatch env t = Inr t"
  using assms by (simp add: checkTxBatch_def getCurrentBlockInfo_def Let_def)

lemma pendingPool_eq:
  "pendingPool = readyPool
     \<lparr>nextNotifyCh := 1, checkTxCh := True,
      checkTxQueue := \<lparr>queueMaxSize = 10, queueMaxBatchSize = 10,
        pending = [\<lparr>Tx = [1], TxHash = 1,
                    Meta = \<lparr>Local = True, Discard = False, Recheck = False\<rparr>,
                    NotifyCh = Some 0\<rparr>]\<rparr>\<rparr>"
  by (simp add: pendingPool_def SubmitTx_begin_def submitTx_def readyPool_def New_def Peek_def
      exampleEnv_def lengthHash_def exampleConfig_def newCheckTxQueue_def Add_def Let_def)

text \<open>A pool with one pending transaction, and a runtime host that is down.\<close>

theorem checkTxBatch_runtime_error_witness:
  "checkTxBatch downEnv pendingPool = Inr pendingPool
   \<and> map Tx (GetBatch (checkTxQueue pendingPool)) = [[1]]"
proof -
  have bi: "blockInfo pendingPool = Some (exampleBlockInfo Normal ''simple'')"
    by (simp add: pendingPool_eq readyPool_def)
  have b: "map Tx (GetBatch (checkTxQueue pendingPool)) = [[1]]"
    by (simp add: pendingPool_eq GetBatch_def)
  have err: "CheckTx downEnv (exampleBlockInfo Normal ''simple'')
      (map Tx (GetBatch (checkTxQueue pendingPool))) = Inl ''runtime unavailable''"
    by (simp add: downEnv_def)
  show ?thesis
    using checkTxBatch_runtime_error [OF bi err] b by simp
qed

text \<open>
  C6. When \<^verbatim>\<open>ProcessBlock\<close> receives an epoch-transition block whose descriptor names
  another scheduling algorithm than the scheduler in place, it returns an error; the
  scheduler is kept as it is, its parameters are not updated, the ticker is not reset and
  the block is not recorded. Only the pool's own map of round weight limits has been
  rewritten by then.
\<close>

theorem ProcessBlock_algorithm_change:
  assumes "scheduler t = Some s"
    and "HeaderType (Header (RuntimeBlock bi)) = EpochTransition"
    and "Algorithm (TxnScheduler (ActiveDescriptor bi)) \<noteq> schedName s"
  shows "ProcessBlock env t bi =
     (Some (ErrUpdateScheduler ErrAlgorithmUpdateNotSupported),
      t\<lparr>roundWeightLimits := (roundWeightLimits t)
          (WeightConsensusMessages \<mapsto> ucast (MaxMessages (Executor (ActiveDescriptor bi))),
           WeightSizeBytes \<mapsto> MaxBatchSizeBytes (TxnScheduler (ActiveDescriptor bi)),
           WeightCount \<mapsto> MaxBatchSize (TxnScheduler (ActiveDescriptor bi)))\<rparr>)"
  using assms by (simp add: ProcessBlock_def updateScheduler_def Let_def)

text \<open>A scheduler named simple, and an epoch-transition block that asks for priority.\<close>

theorem ProcessBlock_algorithm_change_witness:
  "fst (ProcessBlock exampleEnv readyPool (exampleBlockInfo EpochTransition ''priority'')) =
     Some (ErrUpdateScheduler ErrAlgorithmUpdateNotSupported)
   \<and> scheduler (snd (ProcessBlock exampleEnv readyPool
        (exampleBlockInfo EpochTransition ''priority''))) = Some (exampleScheduler [])"
proof -
  have s: "scheduler readyPool = Some (exampleScheduler [])"
    by (simp add: readyPool_def)
  have ty: "HeaderType (Header (RuntimeBlock (exampleBlockInfo EpochTransition ''priority'')))
      = EpochTransition"
    by (simp add: exampleBlockInfo_def)
  have alg: "Algorithm (TxnScheduler (ActiveDescriptor
      (exampleBlockInfo EpochTransition ''priority''))) \<noteq> schedName (exampleScheduler [])"
    by (simp add: exampleBlockInfo_def exampleScheduler_def)
  show ?thesis
    using ProcessBlock_algorithm_change [OF s ty alg, of exampleEnv] s by simp
qed

subsection \<open>The loops of the check worker\<close>

text \<open>Definitions to unfold when a cycle is evaluated on an example.\<close>

lemmas example_defs = readyPool_def New_def exampleEnv_def exampleConfig_def
  newCheckTxQueue_def lengthHash_def firstByteCheck_def exampleScheduler_def okResult_def

lemmas cycle_defs = checkTxBatch_def GetBatch_def getCurrentBlockInfo_def RemoveBatch_def
  RemoveTxBatch_def schedRemoveTxBatch_def QueueTx_def exceedsLimit_def Put_def
  ToCheckedTransaction_def Let_def

lemma zip_right_unique:
  "distinct ys \<Longrightarrow> (x, y) \<in> set (zip xs ys) \<Longrightarrow> (x', y) \<in> set (zip xs ys) \<Longrightarrow> x = x'"
proof (induction xs arbitrary: ys)
  case Nil
  then show ?case by simp
next
  case (Cons a xs)
  then show ?case
    by (cases ys) (auto dest: set_zip_rightD)
qed

lemma checkResults_frame:
  "checkResults env results batch (t, txs, uns) = Inr (t1, txs1, uns1) \<Longrightarrow>
     scheduler t1 = scheduler t \<and> seenCache t1 = seenCache t"
proof (induction env results batch "(t, txs, uns)" arbitrary: t txs uns
    rule: checkResults.induct)
  case (1 env batch)
  then show ?case by simp
next
  case (2 env res results)
  then show ?case by simp
next
  case (3 env res results item batch t txs unschedule)
  then show ?case
    by (auto simp: Let_def split: if_splits option.splits)
qed

lemma checkResults_unschedule:
  "checkResults env results batch (t, txs, uns) = Inr (t1, txs1, uns1) \<Longrightarrow>
     set uns \<subseteq> set uns1
     \<and> (\<forall>res item. (res, item) \<in> set (zip results batch) \<and> \<not> IsSuccess res
           \<and> Recheck (Meta item) \<longrightarrow> TxHash item \<in> set uns1)"
proof (induction env results batch "(t, txs, uns)" arbitrary: t txs uns
    rule: checkResults.induct)
  case (1 env batch)
  then show ?case by simp
next
  case (2 env res results)
  then show ?case by simp
next
  case (3 env res results item batch t txs unschedule)
  then show ?case
    by (simp add: Let_def split: if_splits) blast+
qed

lemma checkResults_txs:
  "checkResults env results batch (t, txs, uns) = Inr (t1, txs1, uns1) \<Longrightarrow>
     length txs1 \<le> length txs + length batch
     \<and> (\<forall>tx l. (tx, l) \<in> set txs1 \<longrightarrow> (tx, l) \<in> set txs
           \<or> (\<exists>res item. (res, item) \<in> set (zip results batch) \<and> IsSuccess res
                 \<and> ctHash tx = NewFromBytes env (Tx item)))"
proof (induction env results batch "(t, txs, uns)" arbitrary: t txs uns
    rule: checkResults.induct)
  case (1 env batch)
  then show ?case by simp
next
  case (2 env res results)
  then show ?case by simp
next
  case (3 env res results item batch t txs unschedule)
  then show ?case
    by (simp add: Let_def ToCheckedTransaction_def split: if_splits) (fastforce+)
qed

lemma QueueTx_hashes:
  "QueueTx s tx = Inr s' \<Longrightarrow> schedQueue s' = schedQueue s @ [tx]"
  by (auto simp: QueueTx_def split: if_splits)

lemma queueChecked_hashes:
  "queueChecked env txs t = Inr t' \<Longrightarrow> scheduler t = Some s \<Longrightarrow>
     \<exists>s'. scheduler t' = Some s'
       \<and> set (map ctHash (schedQueue s')) \<subseteq>
           set (map ctHash (schedQueue s)) \<union> set (map (ctHash \<circ> fst) txs)"
proof (induction env txs t arbitrary: s rule: queueChecked.induct)
  case (1 env t)
  then show ?case by simp
next
  case (2 env tx isLocal txs t)
  show ?case
  proof (cases "QueueTx s tx")
    case (Inl err)
    with 2 show ?thesis by fastforce
  next
    case (Inr s1)
    note q = QueueTx_hashes [OF Inr]
    show ?thesis
    proof (cases isLocal)
      case False
      with 2 Inr q show ?thesis by fastforce
    next
      case True
      show ?thesis
      proof (cases "PublishTx env (ctRaw tx)")
        case None
        with 2 Inr q True show ?thesis by fastforce
      next
        case (Some err)
        with 2 Inr q True show ?thesis by fastforce
      qed
    qed
  qed
qed

lemma checkResults_emitted:
  "checkResults env results batch (t, txs, uns) = Inr (t1, txs1, uns1) \<Longrightarrow>
     \<exists>es. emitted t1 = emitted t @ es"
proof (induction env results batch "(t, txs, uns)" arbitrary: t txs uns
    rule: checkResults.induct)
  case (1 env batch)
  then show ?case by simp
next
  case (2 env res results)
  then show ?case by simp
next
  case (3 env res results item batch t txs unschedule)
  then show ?case
    by (simp add: Let_def split: if_splits option.splits) fastforce+
qed

lemma queueChecked_emitted:
  "queueChecked env txs t = Inr t' \<Longrightarrow> \<exists>es. emitted t' = emitted t @ es"
proof (induction env txs t rule: queueChecked.induct)
  case (1 env t)
  then show ?case by simp
next
  case (2 env tx isLocal txs t)
  then show ?case
    by (simp add: Let_def split: option.splits sum.splits if_splits) fastforce+
qed

text \<open>The steps of a check-worker cycle that gets results from the runtime.\<close>

lemma checkTxBatch_steps:
  assumes bi: "blockInfo t = Some bi"
    and res: "CheckTx env bi (map Tx (GetBatch (checkTxQueue t))) = Inr results"
    and ne: "GetBatch (checkTxQueue t) \<noteq> []"
    and fin: "checkTxBatch env t = Inr t'"
  obtains t1 txs uns s1 t2 where
    "checkResults env results (GetBatch (checkTxQueue t))
       (t\<lparr>checkTxQueue := RemoveBatch (checkTxQueue t) (GetBatch (checkTxQueue t))\<rparr>, [], [])
       = Inr (t1, txs, uns)"
    and "scheduler t1 = Some s1"
    and "t2 = t1\<lparr>scheduler := Some (schedRemoveTxBatch s1 uns),
                 emitted := emitted t1 @ [SchedulerRemoveTxBatch uns]\<rparr>"
    and "(txs = [] \<and> t' = t2)
         \<or> (\<exists>t3. txs \<noteq> [] \<and> queueChecked env txs t2 = Inr t3
               \<and> t' = t3\<lparr>emitted := emitted t3 @
                    [CheckedTransactions (map fst txs), SchedulerNotify False]\<rparr>)"
proof -
  define start where "start =
    t\<lparr>checkTxQueue := RemoveBatch (checkTxQueue t) (GetBatch (checkTxQueue t))\<rparr>"
  have unfold: "checkTxBatch env t =
      (case checkResults env results (GetBatch (checkTxQueue t)) (start, [], []) of
         Inl p \<Rightarrow> Inl p
       | Inr (t1, txs, unschedule) \<Rightarrow>
           (case RemoveTxBatch t1 unschedule of
              Inl p \<Rightarrow> Inl p
            | Inr t2 \<Rightarrow>
                if length txs = 0 then Inr t2
                else (case queueChecked env txs t2 of
                        Inl p \<Rightarrow> Inl p
                      | Inr t3 \<Rightarrow>
                          Inr (t3\<lparr>emitted := emitted t3 @
                                 [CheckedTransactions (map fst txs), SchedulerNotify False]\<rparr>))))"
    unfolding start_def
    by (simp add: checkTxBatch_def getCurrentBlockInfo_def bi res ne Let_def)
  obtain t1 txs uns where cr:
    "checkResults env results (GetBatch (checkTxQueue t)) (start, [], []) = Inr (t1, txs, uns)"
    using fin unfolding unfold
    by (cases "checkResults env results (GetBatch (checkTxQueue t)) (start, [], [])") auto
  obtain s1 where s1: "scheduler t1 = Some s1"
    using fin unfolding unfold cr
    by (cases "scheduler t1") (auto simp: RemoveTxBatch_def)
  define t2 where "t2 = t1\<lparr>scheduler := Some (schedRemoveTxBatch s1 uns),
                 emitted := emitted t1 @ [SchedulerRemoveTxBatch uns]\<rparr>"
  have rm: "RemoveTxBatch t1 uns = Inr t2"
    by (simp add: RemoveTxBatch_def s1 t2_def)
  have fin2: "(if length txs = 0 then Inr t2
      else (case queueChecked env txs t2 of
              Inl p \<Rightarrow> Inl p
            | Inr t3 \<Rightarrow>
                Inr (t3\<lparr>emitted := emitted t3 @
                       [CheckedTransactions (map fst txs), SchedulerNotify False]\<rparr>))) = Inr t'"
    using fin unfolding unfold cr by (simp add: rm)
  have "(txs = [] \<and> t' = t2)
         \<or> (\<exists>t3. txs \<noteq> [] \<and> queueChecked env txs t2 = Inr t3
               \<and> t' = t3\<lparr>emitted := emitted t3 @
                    [CheckedTransactions (map fst txs), SchedulerNotify False]\<rparr>)"
  proof (cases "txs = []")
    case True
    with fin2 show ?thesis by simp
  next
    case False
    with fin2 show ?thesis
      by (cases "queueChecked env txs t2") auto
  qed
  then show ?thesis
    using that [OF cr [unfolded start_def] s1 t2_def] by blast
qed

text \<open>
  C4. When a check-worker cycle gets results from the runtime and completes, a batch entry
  that is a recheck and whose check failed has its hash in the list the cycle passes to the
  scheduler's \<^verbatim>\<open>RemoveTxBatch\<close>, and the transaction is not in the scheduling queue
  at the end of the cycle.
\<close>

theorem checkTxBatch_failed_recheck_unscheduled:
  assumes inv: "checkQueueInv env (checkTxQueue t)"
    and bi: "blockInfo t = Some bi"
    and res: "CheckTx env bi (map Tx (GetBatch (checkTxQueue t))) = Inr results"
    and i: "i < length results" "i < length (GetBatch (checkTxQueue t))"
    and fail: "\<not> IsSuccess (results ! i)"
    and recheck: "Recheck (Meta (GetBatch (checkTxQueue t) ! i))"
    and fin: "checkTxBatch env t = Inr t'"
  shows "(\<exists>hashes. SchedulerRemoveTxBatch hashes \<in> set (drop (length (emitted t)) (emitted t'))
            \<and> TxHash (GetBatch (checkTxQueue t) ! i) \<in> set hashes)
     \<and> (\<exists>s'. scheduler t' = Some s'
            \<and> TxHash (GetBatch (checkTxQueue t) ! i) \<notin> set (map ctHash (schedQueue s')))"
proof -
  define batch where "batch = GetBatch (checkTxQueue t)"
  define item where "item = batch ! i"
  have ne: "GetBatch (checkTxQueue t) \<noteq> []"
    using i by auto
  obtain t1 txs uns s1 t2 where
    cr: "checkResults env results batch
       (t\<lparr>checkTxQueue := RemoveBatch (checkTxQueue t) batch\<rparr>, [], []) = Inr (t1, txs, uns)"
    and s1: "scheduler t1 = Some s1"
    and t2: "t2 = t1\<lparr>scheduler := Some (schedRemoveTxBatch s1 uns),
                 emitted := emitted t1 @ [SchedulerRemoveTxBatch uns]\<rparr>"
    and rest: "(txs = [] \<and> t' = t2)
         \<or> (\<exists>t3. txs \<noteq> [] \<and> queueChecked env txs t2 = Inr t3
               \<and> t' = t3\<lparr>emitted := emitted t3 @
                    [CheckedTransactions (map fst txs), SchedulerNotify False]\<rparr>)"
    using checkTxBatch_steps [OF bi res ne fin] unfolding batch_def by blast
  have inzip: "(results ! i, item) \<in> set (zip results batch)"
    using i unfolding item_def batch_def by (auto simp: in_set_zip)
  have uns: "TxHash item \<in> set uns"
    using checkResults_unschedule [OF cr] inzip fail recheck
    unfolding item_def batch_def by blast
  have dist: "distinct (map TxHash batch)"
    using inv unfolding checkQueueInv_def batch_def GetBatch_def
    by (simp add: distinct_take flip: take_map)
  have hashed: "\<And>p. p \<in> set batch \<Longrightarrow> TxHash p = NewFromBytes env (Tx p)"
    using inv unfolding checkQueueInv_def batch_def GetBatch_def
    by (auto simp: list_all_iff dest: in_set_takeD)
  have fresh: "ctHash tx \<noteq> TxHash item" if mem: "(tx, l) \<in> set txs" for tx l
  proof
    assume eq: "ctHash tx = TxHash item"
    obtain res' item' where z: "(res', item') \<in> set (zip results batch)"
      and ok: "IsSuccess res'" and h: "ctHash tx = NewFromBytes env (Tx item')"
      using checkResults_txs [OF cr] mem by auto
    have "item' \<in> set batch" "item \<in> set batch"
      using z inzip by (auto dest: set_zip_rightD)
    moreover have "TxHash item' = TxHash item"
      using hashed [OF \<open>item' \<in> set batch\<close>] h eq by simp
    ultimately have "item' = item"
      using dist by (auto simp: distinct_map dest: inj_onD)
    moreover have "distinct batch"
      using dist by (simp add: distinct_map)
    ultimately have "res' = results ! i"
      using z inzip by (auto dest: zip_right_unique)
    with ok fail show False by simp
  qed
  obtain es1 where es1: "emitted t1 = emitted t @ es1"
    using checkResults_emitted [OF cr] by auto
  have removed: "TxHash item \<notin> set (map ctHash (schedQueue (schedRemoveTxBatch s1 uns)))"
    using uns by (auto simp: schedRemoveTxBatch_def)
  have s2: "scheduler t2 = Some (schedRemoveTxBatch s1 uns)"
    unfolding t2 by simp
  have e2: "emitted t2 = emitted t @ es1 @ [SchedulerRemoveTxBatch uns]"
    unfolding t2 by (simp add: es1)
  have "\<exists>s' es. scheduler t' = Some s' \<and> emitted t' = emitted t2 @ es
      \<and> TxHash item \<notin> set (map ctHash (schedQueue s'))"
    using rest
  proof
    assume "txs = [] \<and> t' = t2"
    then show ?thesis
      using s2 removed by simp
  next
    assume "\<exists>t3. txs \<noteq> [] \<and> queueChecked env txs t2 = Inr t3
               \<and> t' = t3\<lparr>emitted := emitted t3 @
                    [CheckedTransactions (map fst txs), SchedulerNotify False]\<rparr>"
    then obtain t3 where q: "queueChecked env txs t2 = Inr t3"
      and t': "t' = t3\<lparr>emitted := emitted t3 @
                    [CheckedTransactions (map fst txs), SchedulerNotify False]\<rparr>"
      by blast
    obtain s' where s': "scheduler t3 = Some s'"
      and sub: "set (map ctHash (schedQueue s')) \<subseteq>
           set (map ctHash (schedQueue (schedRemoveTxBatch s1 uns)))
           \<union> set (map (ctHash \<circ> fst) txs)"
      using queueChecked_hashes [OF q s2] by blast
    obtain es3 where es3: "emitted t3 = emitted t2 @ es3"
      using queueChecked_emitted [OF q] by auto
    have absent: "TxHash item \<notin> set (map ctHash (schedQueue s'))"
    proof
      assume "TxHash item \<in> set (map ctHash (schedQueue s'))"
      with sub removed have "TxHash item \<in> set (map (ctHash \<circ> fst) txs)"
        by blast
      then obtain tx l where "(tx, l) \<in> set txs" "ctHash tx = TxHash item"
        by auto
      with fresh show False by blast
    qed
    have "scheduler t' = Some s'"
      unfolding t' by (simp add: s')
    moreover have "emitted t' =
        emitted t2 @ (es3 @ [CheckedTransactions (map fst txs), SchedulerNotify False])"
      unfolding t' by (simp add: es3)
    ultimately show ?thesis
      using absent by blast
  qed
  then obtain s' es where fs: "scheduler t' = Some s'" and fe: "emitted t' = emitted t2 @ es"
    and fa: "TxHash item \<notin> set (map ctHash (schedQueue s'))"
    by blast
  have "SchedulerRemoveTxBatch uns \<in> set (drop (length (emitted t)) (emitted t'))"
    by (simp add: fe e2)
  with uns fs fa show ?thesis
    unfolding item_def batch_def by blast
qed




text \<open>The scheduler holds \<open>[0, 5]\<close>, the recheck of it fails, the cycle removes it.\<close>

lemma recheckPool_submit:
  "submitTx exampleEnv
     (readyPool\<lparr>scheduler :=
        Some (exampleScheduler [\<lparr>ctHash = 2, ctRaw = [0, 5], ctWeights = []\<rparr>])\<rparr>)
     [0, 5] recheckMeta None = (None, recheckPool)"
  by (simp add: submitTx_def Peek_def Add_def recheckPool_def recheckMeta_def example_defs Let_def)

lemma recheckPool_cycle: "checkTxBatch exampleEnv recheckPool = Inr recheckedPool"
  by (simp add: cycle_defs recheckPool_def recheckedPool_def recheckMeta_def example_defs)

theorem checkTxBatch_failed_recheck_unscheduled_witness:
  "(\<exists>hashes. SchedulerRemoveTxBatch hashes
        \<in> set (drop (length (emitted recheckPool)) (emitted recheckedPool))
      \<and> TxHash (GetBatch (checkTxQueue recheckPool) ! 0) \<in> set hashes)
   \<and> (\<exists>s'. scheduler recheckedPool = Some s'
      \<and> TxHash (GetBatch (checkTxQueue recheckPool) ! 0) \<notin> set (map ctHash (schedQueue s')))
   \<and> TxHash (GetBatch (checkTxQueue recheckPool) ! 0) = 2
   \<and> scheduler recheckPool =
        Some (exampleScheduler [\<lparr>ctHash = 2, ctRaw = [0, 5], ctWeights = []\<rparr>])"
proof -
  have inv: "checkQueueInv exampleEnv (checkTxQueue recheckPool)"
    by (simp add: checkQueueInv_def recheckPool_def example_defs)
  have bi: "blockInfo recheckPool = Some (exampleBlockInfo Normal ''simple'')"
    by (simp add: recheckPool_def readyPool_def)
  have res: "CheckTx exampleEnv (exampleBlockInfo Normal ''simple'')
      (map Tx (GetBatch (checkTxQueue recheckPool))) = Inr [firstByteCheck [0, 5]]"
    by (simp add: recheckPool_def GetBatch_def exampleEnv_def)
  have i: "0 < length [firstByteCheck [0, 5]]" "0 < length (GetBatch (checkTxQueue recheckPool))"
    by (simp_all add: recheckPool_def GetBatch_def)
  have fail: "\<not> IsSuccess ([firstByteCheck [0, 5]] ! 0)"
    by (simp add: firstByteCheck_def)
  have recheck: "Recheck (Meta (GetBatch (checkTxQueue recheckPool) ! 0))"
    by (simp add: recheckPool_def GetBatch_def recheckMeta_def)
  have "TxHash (GetBatch (checkTxQueue recheckPool) ! 0) = 2"
    by (simp add: recheckPool_def GetBatch_def)
  moreover have "scheduler recheckPool =
        Some (exampleScheduler [\<lparr>ctHash = 2, ctRaw = [0, 5], ctWeights = []\<rparr>])"
    by (simp add: recheckPool_def)
  ultimately show ?thesis
    using checkTxBatch_failed_recheck_unscheduled [OF inv bi res i fail recheck recheckPool_cycle]
    by simp
qed


subsection \<open>The seen cache after a cycle\<close>

lemma take_filter_mem:
  "x \<in> set (take k xs) \<Longrightarrow> x \<noteq> h \<Longrightarrow> x \<in> set (take k (filter (\<lambda>y. y \<noteq> h) xs))"
proof (induction xs arbitrary: k)
  case Nil
  then show ?case by simp
next
  case (Cons a xs)
  show ?case
  proof (cases k)
    case 0
    with Cons.prems show ?thesis by simp
  next
    case (Suc j)
    show ?thesis
    proof (cases "a = h")
      case True
      with Cons.prems Suc have "x \<in> set (take j xs)" by auto
      then have "x \<in> set (take j (filter (\<lambda>y. y \<noteq> h) xs))"
        using Cons.IH Cons.prems(2) by blast
      then have "x \<in> set (take (Suc j) (filter (\<lambda>y. y \<noteq> h) xs))"
        using set_take_subset_set_take [of j "Suc j"] by fastforce
      with True Suc show ?thesis by simp
    next
      case False
      with Cons.prems Suc Cons.IH [of j] show ?thesis by auto
    qed
  qed
qed

lemma Put_keys:
  "map fst (cacheEntries (Put c h ts)) =
     take (cacheCapacity c) (h # filter (\<lambda>k. k \<noteq> h) (map fst (cacheEntries c)))"
  by (simp add: Put_def filter_map comp_def flip: take_map)

lemma Put_capacity: "cacheCapacity (Put c h ts) = cacheCapacity c"
  by (simp add: Put_def)

lemma Put_head:
  "1 \<le> cacheCapacity c \<Longrightarrow> h \<in> set (take 1 (map fst (cacheEntries (Put c h ts))))"
  by (cases "cacheCapacity c") (simp_all add: Put_keys)

lemma Put_keeps:
  assumes "x \<in> set (take k (map fst (cacheEntries c)))" and "Suc k \<le> cacheCapacity c"
  shows "x \<in> set (take (Suc k) (map fst (cacheEntries (Put c h ts))))"
proof -
  have "x \<in> set (take (Suc k) (h # filter (\<lambda>y. y \<noteq> h) (map fst (cacheEntries c))))"
    using assms(1) by (cases "x = h") (auto dest: take_filter_mem)
  moreover have "take (Suc k) (map fst (cacheEntries (Put c h ts))) =
      take (Suc k) (h # filter (\<lambda>y. y \<noteq> h) (map fst (cacheEntries c)))"
    using assms(2) by (simp only: Put_keys take_take min_absorb1)
  ultimately show ?thesis by simp
qed

lemma Peek_keys: "(Peek c h \<noteq> None) = (h \<in> set (map fst (cacheEntries c)))"
  by (simp add: Peek_def map_of_eq_None_iff)

lemma queueChecked_keeps:
  "queueChecked env txs t = Inr t' \<Longrightarrow>
   x \<in> set (take k (map fst (cacheEntries (seenCache t)))) \<Longrightarrow>
   k + length txs \<le> cacheCapacity (seenCache t) \<Longrightarrow>
     x \<in> set (take (k + length txs) (map fst (cacheEntries (seenCache t'))))"
proof (induction env txs t arbitrary: k rule: queueChecked.induct)
  case (1 env t)
  then show ?case by simp
next
  case (2 env tx isLocal txs t)
  obtain s where s: "scheduler t = Some s"
    using "2.prems"(1) by (cases "scheduler t") auto
  show ?case
  proof (cases "QueueTx s tx")
    case (Inl err)
    have "x \<in> set (take (k + length txs) (map fst (cacheEntries (seenCache t'))))"
      using "2.IH"(1) [OF s Inl, of k] "2.prems" s Inl by simp
    then show ?thesis
      using set_take_subset_set_take [of "k + length txs" "k + length ((tx, isLocal) # txs)"]
      by fastforce
  next
    case (Inr s1)
    define ts where "ts = (if isLocal \<and> PublishTx env (ctRaw tx) \<noteq> None then 0 else timeNow env)"
    define c1 where "c1 = Put (seenCache t) (ctHash tx) ts"
    have pos: "x \<in> set (take (Suc k) (map fst (cacheEntries c1)))"
      unfolding c1_def using "2.prems"(2,3) by (intro Put_keeps) auto
    have cap: "Suc k + length txs \<le> cacheCapacity c1"
      unfolding c1_def using "2.prems"(3) by (simp add: Put_capacity)
    show ?thesis
    proof (cases isLocal)
      case False
      have "x \<in> set (take (Suc k + length txs) (map fst (cacheEntries (seenCache t'))))"
        using "2.IH"(4) [OF s Inr refl False, of "Suc k"] "2.prems"(1) s Inr False pos cap
        by (simp add: c1_def ts_def)
      then show ?thesis by simp
    next
      case True
      show ?thesis
      proof (cases "PublishTx env (ctRaw tx)")
        case None
        have "x \<in> set (take (Suc k + length txs) (map fst (cacheEntries (seenCache t'))))"
          using "2.IH"(2) [OF s Inr refl True None, of "Suc k"] "2.prems"(1) s Inr True None
            pos cap
          by (simp add: c1_def ts_def)
        then show ?thesis by simp
      next
        case (Some err)
        have "x \<in> set (take (Suc k + length txs) (map fst (cacheEntries (seenCache t'))))"
          using "2.IH"(3) [OF s Inr refl True Some, of "Suc k"] "2.prems"(1) s Inr True Some
            pos cap
          by (simp add: c1_def ts_def)
        then show ?thesis by simp
      qed
    qed
  qed
qed

lemma queueChecked_seen:
  "queueChecked env txs t = Inr t' \<Longrightarrow> scheduler t = Some s \<Longrightarrow>
   length txs \<le> cacheCapacity (seenCache t) \<Longrightarrow>
     \<exists>s'. scheduler t' = Some s'
       \<and> (\<forall>h. h \<in> set (map ctHash (schedQueue s')) \<and> h \<notin> set (map ctHash (schedQueue s))
              \<longrightarrow> h \<in> set (take (length txs) (map fst (cacheEntries (seenCache t')))))"
proof (induction env txs t arbitrary: s rule: queueChecked.induct)
  case (1 env t)
  then show ?case by simp
next
  case (2 env tx isLocal txs t)
  note wider = set_take_subset_set_take [of "length txs" "length ((tx, isLocal) # txs)"]
  show ?case
  proof (cases "QueueTx s tx")
    case (Inl err)
    obtain s' where s': "scheduler t' = Some s'"
      and new: "\<forall>h. h \<in> set (map ctHash (schedQueue s')) \<and> h \<notin> set (map ctHash (schedQueue s))
              \<longrightarrow> h \<in> set (take (length txs) (map fst (cacheEntries (seenCache t'))))"
      using "2.IH"(1) [OF "2.prems"(2) Inl, of s] "2.prems" Inl by auto
    show ?thesis
      using s' new wider by fastforce
  next
    case (Inr s1)
    note q = QueueTx_hashes [OF Inr]
    define ts where "ts = (if isLocal \<and> PublishTx env (ctRaw tx) \<noteq> None then 0 else timeNow env)"
    define t1 where "t1 = (if isLocal
       then (case PublishTx env (ctRaw tx) of
               None \<Rightarrow> t\<lparr>scheduler := Some s1,
                          emitted := emitted t @ [PublishedTx (ctRaw tx)],
                          seenCache := Put (seenCache t) (ctHash tx) (timeNow env)\<rparr>
             | Some err \<Rightarrow> t\<lparr>scheduler := Some s1, republishCh := True,
                              seenCache := Put (seenCache t) (ctHash tx) 0\<rparr>)
       else t\<lparr>scheduler := Some s1,
              seenCache := Put (seenCache t) (ctHash tx) (timeNow env)\<rparr>)"
    have rest: "queueChecked env txs t1 = Inr t'"
      using "2.prems"(1,2) Inr unfolding t1_def
      by (auto simp: Let_def split: option.splits)
    have sched1: "scheduler t1 = Some s1"
      unfolding t1_def by (simp split: option.splits)
    have cache1: "seenCache t1 = Put (seenCache t) (ctHash tx) ts"
      unfolding t1_def ts_def by (simp split: option.splits)
    have cap1: "length txs \<le> cacheCapacity (seenCache t1)"
      using "2.prems"(3) by (simp add: cache1 Put_capacity)
    have ih: "\<exists>s'. scheduler t' = Some s'
       \<and> (\<forall>h. h \<in> set (map ctHash (schedQueue s')) \<and> h \<notin> set (map ctHash (schedQueue s1))
              \<longrightarrow> h \<in> set (take (length txs) (map fst (cacheEntries (seenCache t')))))"
    proof (cases isLocal)
      case False
      show ?thesis
        using "2.IH"(4) [OF "2.prems"(2) Inr refl False, of s1] rest sched1 cap1 False
        by (simp add: t1_def)
    next
      case True
      show ?thesis
      proof (cases "PublishTx env (ctRaw tx)")
        case None
        show ?thesis
          using "2.IH"(2) [OF "2.prems"(2) Inr refl True None, of s1] rest sched1 cap1 True None
          by (simp add: t1_def)
      next
        case (Some err)
        show ?thesis
          using "2.IH"(3) [OF "2.prems"(2) Inr refl True Some, of s1] rest sched1 cap1 True Some
          by (simp add: t1_def)
      qed
    qed
    then obtain s' where s': "scheduler t' = Some s'"
      and new: "\<And>h. h \<in> set (map ctHash (schedQueue s')) \<Longrightarrow>
                  h \<notin> set (map ctHash (schedQueue s1)) \<Longrightarrow>
                  h \<in> set (take (length txs) (map fst (cacheEntries (seenCache t'))))"
      by blast
    have head: "ctHash tx \<in> set (take (1 + length txs) (map fst (cacheEntries (seenCache t'))))"
    proof (rule queueChecked_keeps [OF rest])
      show "ctHash tx \<in> set (take 1 (map fst (cacheEntries (seenCache t1))))"
        unfolding cache1 using "2.prems"(3) by (intro Put_head) simp
      show "1 + length txs \<le> cacheCapacity (seenCache t1)"
        using "2.prems"(3) by (simp add: cache1 Put_capacity)
    qed
    have "h \<in> set (take (length ((tx, isLocal) # txs)) (map fst (cacheEntries (seenCache t'))))"
      if h: "h \<in> set (map ctHash (schedQueue s'))" "h \<notin> set (map ctHash (schedQueue s))" for h
    proof (cases "h = ctHash tx")
      case True
      with head show ?thesis by simp
    next
      case False
      with h q have "h \<notin> set (map ctHash (schedQueue s1))" by simp
      from new [OF h(1) this] wider show ?thesis by fastforce
    qed
    with s' show ?thesis by blast
  qed
qed

lemma checkTxBatch_early:
  "GetBatch (checkTxQueue t) = [] \<or> blockInfo t = None
     \<or> (\<exists>bi err. blockInfo t = Some bi
           \<and> CheckTx env bi (map Tx (GetBatch (checkTxQueue t))) = Inl err) \<Longrightarrow>
   checkTxBatch env t = Inr t"
  by (auto simp: checkTxBatch_def getCurrentBlockInfo_def Let_def)

text \<open>
  C2. Every transaction that a check-worker cycle adds to the scheduling queue is in the
  seen cache when the cycle completes, if the seen cache has room for the batch. These are
  the transactions of that cycle that were submitted without the recheck and the discard
  flags, passed the check of the runtime and were accepted by the scheduler; the blocking
  submission of such a transaction has its result by then.
\<close>

theorem checkTxBatch_queued_is_seen:
  assumes fin: "checkTxBatch env t = Inr t'"
    and s: "scheduler t = Some s"
    and s': "scheduler t' = Some s'"
    and room: "length (GetBatch (checkTxQueue t)) \<le> cacheCapacity (seenCache t)"
    and new: "h \<in> set (map ctHash (schedQueue s'))" "h \<notin> set (map ctHash (schedQueue s))"
  shows "Peek (seenCache t') h \<noteq> None"
proof (cases "GetBatch (checkTxQueue t) = [] \<or> blockInfo t = None
     \<or> (\<exists>bi err. blockInfo t = Some bi
           \<and> CheckTx env bi (map Tx (GetBatch (checkTxQueue t))) = Inl err)")
  case True
  then have "t' = t"
    using checkTxBatch_early [of t env] fin by simp
  with s s' new show ?thesis by simp
next
  case False
  then obtain bi results where bi: "blockInfo t = Some bi"
    and res: "CheckTx env bi (map Tx (GetBatch (checkTxQueue t))) = Inr results"
    and ne: "GetBatch (checkTxQueue t) \<noteq> []"
    by (cases "blockInfo t"; cases "CheckTx env (the (blockInfo t))
          (map Tx (GetBatch (checkTxQueue t)))") auto
  obtain t1 txs uns s1 t2 where
    cr: "checkResults env results (GetBatch (checkTxQueue t))
       (t\<lparr>checkTxQueue := RemoveBatch (checkTxQueue t) (GetBatch (checkTxQueue t))\<rparr>, [], [])
       = Inr (t1, txs, uns)"
    and s1: "scheduler t1 = Some s1"
    and t2: "t2 = t1\<lparr>scheduler := Some (schedRemoveTxBatch s1 uns),
                 emitted := emitted t1 @ [SchedulerRemoveTxBatch uns]\<rparr>"
    and rest: "(txs = [] \<and> t' = t2)
         \<or> (\<exists>t3. txs \<noteq> [] \<and> queueChecked env txs t2 = Inr t3
               \<and> t' = t3\<lparr>emitted := emitted t3 @
                    [CheckedTransactions (map fst txs), SchedulerNotify False]\<rparr>)"
    using checkTxBatch_steps [OF bi res ne fin] by blast
  have frame: "scheduler t1 = scheduler t" "seenCache t1 = seenCache t"
    using checkResults_frame [OF cr] by simp_all
  have len: "length txs \<le> length (GetBatch (checkTxQueue t))"
    using checkResults_txs [OF cr] by simp
  have s1s: "s1 = s"
    using s1 s frame by simp
  have s2: "scheduler t2 = Some (schedRemoveTxBatch s uns)"
    unfolding t2 by (simp add: s1s)
  have c2: "seenCache t2 = seenCache t"
    unfolding t2 by (simp add: frame)
  have old: "h \<notin> set (map ctHash (schedQueue (schedRemoveTxBatch s uns)))"
    using new(2) by (auto simp: schedRemoveTxBatch_def)
  from rest show ?thesis
  proof
    assume "txs = [] \<and> t' = t2"
    with s2 s' new(1) old show ?thesis by simp
  next
    assume "\<exists>t3. txs \<noteq> [] \<and> queueChecked env txs t2 = Inr t3
               \<and> t' = t3\<lparr>emitted := emitted t3 @
                    [CheckedTransactions (map fst txs), SchedulerNotify False]\<rparr>"
    then obtain t3 where q: "queueChecked env txs t2 = Inr t3"
      and t': "t' = t3\<lparr>emitted := emitted t3 @
                    [CheckedTransactions (map fst txs), SchedulerNotify False]\<rparr>"
      by blast
    have cap: "length txs \<le> cacheCapacity (seenCache t2)"
      using len room by (simp add: c2)
    obtain s3 where s3: "scheduler t3 = Some s3"
      and seen: "\<forall>h. h \<in> set (map ctHash (schedQueue s3))
                 \<and> h \<notin> set (map ctHash (schedQueue (schedRemoveTxBatch s uns)))
              \<longrightarrow> h \<in> set (take (length txs) (map fst (cacheEntries (seenCache t3))))"
      using queueChecked_seen [OF q s2 cap] by blast
    have "scheduler t' = Some s3" "seenCache t' = seenCache t3"
      unfolding t' by (simp_all add: s3)
    with s' have "s3 = s'" by simp
    with seen new(1) old
    have "h \<in> set (take (length txs) (map fst (cacheEntries (seenCache t3))))"
      by blast
    then have "h \<in> set (map fst (cacheEntries (seenCache t3)))"
      by (rule in_set_takeD)
    then have "Peek (seenCache t3) h \<noteq> None"
      by (simp only: Peek_keys)
    then show ?thesis
      using \<open>seenCache t' = seenCache t3\<close> by simp
  qed
qed


text \<open>
  The pending local transaction \<open>[1]\<close> of a blocking submission: after the cycle the
  submission receives the result, the scheduler holds the transaction and the seen cache
  its fingerprint.
\<close>

lemma pendingPool_cycle: "checkTxBatch exampleEnv pendingPool = Inr checkedPool"
  by (simp add: cycle_defs pendingPool_eq checkedPool_def example_defs)

theorem checkTxBatch_queued_is_seen_witness:
  "SubmitTx_select False False checkedPool 0 = [Returned (Inr okResult)]
   \<and> Peek (seenCache checkedPool) (NewFromBytes exampleEnv [1]) \<noteq> None"
proof -
  have s: "scheduler pendingPool = Some (exampleScheduler [])"
    by (simp add: pendingPool_eq readyPool_def)
  have s': "scheduler checkedPool =
      Some (exampleScheduler [\<lparr>ctHash = 1, ctRaw = [1], ctWeights = []\<rparr>])"
    by (simp add: checkedPool_def)
  have room: "length (GetBatch (checkTxQueue pendingPool)) \<le> cacheCapacity (seenCache pendingPool)"
    by (simp add: pendingPool_eq GetBatch_def example_defs)
  have new: "NewFromBytes exampleEnv [1] \<in> set (map ctHash (schedQueue
      (exampleScheduler [\<lparr>ctHash = 1, ctRaw = [1], ctWeights = []\<rparr>])))"
    by (simp add: example_defs)
  have old: "NewFromBytes exampleEnv [1] \<notin> set (map ctHash (schedQueue (exampleScheduler [])))"
    by (simp add: example_defs)
  have "SubmitTx_select False False checkedPool 0 = [Returned (Inr okResult)]"
    by (simp add: SubmitTx_select_def checkedPool_def)
  then show ?thesis
    using checkTxBatch_queued_is_seen [OF pendingPool_cycle s s' room new old] by simp
qed

text \<open>
  A blocking submission with the discard flag and without the recheck flag returns the
  successful result of the check, and the fingerprint is not in the seen cache: the check
  worker drops the transaction before it reaches the scheduler and the cache.
\<close>

lemma discardPool_begin:
  "SubmitTx_begin exampleEnv readyPool [1] discardMeta = (Inr 0, discardPool)"
  by (simp add: SubmitTx_begin_def submitTx_def Peek_def Add_def discardPool_def discardMeta_def
      example_defs Let_def)

lemma discardPool_cycle: "checkTxBatch exampleEnv discardPool = Inr discardedPool"
  by (simp add: cycle_defs discardPool_def discardedPool_def discardMeta_def example_defs)

theorem SubmitTx_discard_not_seen:
  "SubmitTx_begin exampleEnv readyPool [1] discardMeta = (Inr 0, discardPool)
   \<and> \<not> Recheck discardMeta
   \<and> checkTxBatch exampleEnv discardPool = Inr discardedPool
   \<and> SubmitTx_select False False discardedPool 0 = [Returned (Inr okResult)]
   \<and> IsSuccess okResult
   \<and> Peek (seenCache discardedPool) (NewFromBytes exampleEnv [1]) = None"
  by (simp add: discardPool_begin discardPool_cycle)
     (simp add: SubmitTx_select_def Peek_def discardedPool_def discardMeta_def example_defs)

subsection \<open>A channel nothing is sent on\<close>

text \<open>
  The operations of the pool keep a dead channel dead, and a call that waits on a dead
  channel is blocked until its context is done or the pool stops; it then returns the
  error. The blocking submission of a transaction that is in the seen cache waits on such
  a channel.
\<close>

lemma received_append:
  "received (es @ es') ch = (case received es ch of None \<Rightarrow> received es' ch | Some r \<Rightarrow> Some r)"
  by (induction es ch rule: received.induct) auto

lemma checkResults_silent:
  "checkResults env results batch (t, txs, uns) = Inr (t1, txs1, uns1) \<Longrightarrow>
   Some ch \<notin> set (map NotifyCh batch) \<Longrightarrow>
     received (emitted t1) ch = received (emitted t) ch
     \<and> checkTxQueue t1 = checkTxQueue t \<and> nextNotifyCh t1 = nextNotifyCh t"
proof (induction env results batch "(t, txs, uns)" arbitrary: t txs uns
    rule: checkResults.induct)
  case (1 env batch)
  then show ?case by simp
next
  case (2 env res results)
  then show ?case by simp
next
  case (3 env res results item batch t txs unschedule)
  then show ?case
    by (auto simp: Let_def received_append split: if_splits option.splits)
qed

lemma queueChecked_silent:
  "queueChecked env txs t = Inr t' \<Longrightarrow>
     received (emitted t') ch = received (emitted t) ch
     \<and> checkTxQueue t' = checkTxQueue t \<and> nextNotifyCh t' = nextNotifyCh t"
proof (induction env txs t rule: queueChecked.induct)
  case (1 env t)
  then show ?case by simp
next
  case (2 env tx isLocal txs t)
  then show ?case
    by (auto simp: Let_def received_append split: option.splits sum.splits if_splits)
qed

lemma checkTxBatch_dead:
  assumes fin: "checkTxBatch env t = Inr t'" and dead: "deadChannel t ch"
  shows "deadChannel t' ch"
proof (cases "GetBatch (checkTxQueue t) = [] \<or> blockInfo t = None
     \<or> (\<exists>bi err. blockInfo t = Some bi
           \<and> CheckTx env bi (map Tx (GetBatch (checkTxQueue t))) = Inl err)")
  case True
  then have "t' = t"
    using checkTxBatch_early [of t env] fin by simp
  with dead show ?thesis by simp
next
  case False
  then obtain bi results where bi: "blockInfo t = Some bi"
    and res: "CheckTx env bi (map Tx (GetBatch (checkTxQueue t))) = Inr results"
    and ne: "GetBatch (checkTxQueue t) \<noteq> []"
    by (cases "blockInfo t"; cases "CheckTx env (the (blockInfo t))
          (map Tx (GetBatch (checkTxQueue t)))") auto
  define start where "start =
    t\<lparr>checkTxQueue := RemoveBatch (checkTxQueue t) (GetBatch (checkTxQueue t))\<rparr>"
  obtain t1 txs uns s1 t2 where
    cr0: "checkResults env results (GetBatch (checkTxQueue t))
       (t\<lparr>checkTxQueue := RemoveBatch (checkTxQueue t) (GetBatch (checkTxQueue t))\<rparr>, [], [])
       = Inr (t1, txs, uns)"
    and s1: "scheduler t1 = Some s1"
    and t2: "t2 = t1\<lparr>scheduler := Some (schedRemoveTxBatch s1 uns),
                 emitted := emitted t1 @ [SchedulerRemoveTxBatch uns]\<rparr>"
    and rest: "(txs = [] \<and> t' = t2)
         \<or> (\<exists>t3. txs \<noteq> [] \<and> queueChecked env txs t2 = Inr t3
               \<and> t' = t3\<lparr>emitted := emitted t3 @
                    [CheckedTransactions (map fst txs), SchedulerNotify False]\<rparr>)"
    using checkTxBatch_steps [OF bi res ne fin] by blast
  have cr: "checkResults env results (GetBatch (checkTxQueue t)) (start, [], [])
      = Inr (t1, txs, uns)"
    using cr0 unfolding start_def .
  have unref: "Some ch \<notin> set (map NotifyCh (GetBatch (checkTxQueue t)))"
    using dead unfolding deadChannel_def GetBatch_def
    by (auto dest: in_set_takeD)
  have f1: "received (emitted t1) ch = received (emitted start) ch"
    "checkTxQueue t1 = checkTxQueue start" "nextNotifyCh t1 = nextNotifyCh start"
    using checkResults_silent [OF cr unref] by simp_all
  have d2: "received (emitted t2) ch = None"
    "checkTxQueue t2 = RemoveBatch (checkTxQueue t) (GetBatch (checkTxQueue t))"
    "nextNotifyCh t2 = nextNotifyCh t"
    using dead unfolding t2 deadChannel_def
    by (simp_all add: f1 start_def received_append)
  have "received (emitted t') ch = None \<and> checkTxQueue t' = checkTxQueue t2
      \<and> nextNotifyCh t' = nextNotifyCh t2"
    using rest
  proof
    assume "txs = [] \<and> t' = t2"
    with d2 show ?thesis by simp
  next
    assume "\<exists>t3. txs \<noteq> [] \<and> queueChecked env txs t2 = Inr t3
               \<and> t' = t3\<lparr>emitted := emitted t3 @
                    [CheckedTransactions (map fst txs), SchedulerNotify False]\<rparr>"
    then obtain t3 where q: "queueChecked env txs t2 = Inr t3"
      and t': "t' = t3\<lparr>emitted := emitted t3 @
                    [CheckedTransactions (map fst txs), SchedulerNotify False]\<rparr>"
      by blast
    show ?thesis
      unfolding t' using queueChecked_silent [OF q, of ch] d2
      by (simp add: received_append)
  qed
  then show ?thesis
    using dead d2 unfolding deadChannel_def RemoveBatch_def by auto
qed

lemma submitTx_dead:
  assumes "submitTx env t rawTx meta notifyCh = (err, t')" and "deadChannel t ch"
    and "notifyCh \<noteq> Some ch"
  shows "deadChannel t' ch"
  using assms
  by (auto simp: submitTx_def deadChannel_def Add_def Let_def split: if_splits)

lemma SubmitTx_begin_dead:
  assumes "SubmitTx_begin env t rawTx meta = (r, t')" and "deadChannel t ch"
  shows "deadChannel t' ch"
proof -
  define t0 where "t0 = t\<lparr>nextNotifyCh := nextNotifyCh t + 1\<rparr>"
  have d0: "deadChannel t0 ch"
    using assms(2) unfolding deadChannel_def t0_def by simp
  have neq: "Some (nextNotifyCh t) \<noteq> Some ch"
    using assms(2) unfolding deadChannel_def by simp
  obtain err t1 where s: "submitTx env t0 rawTx meta (Some (nextNotifyCh t)) = (err, t1)"
    by (cases "submitTx env t0 rawTx meta (Some (nextNotifyCh t))") auto
  have d1: "deadChannel t1 ch"
    using submitTx_dead [OF s d0 neq] .
  show ?thesis
  proof (cases err)
    case None
    with assms(1) s have "t' = t1"
      by (simp add: SubmitTx_begin_def Let_def t0_def)
    with d1 show ?thesis by simp
  next
    case (Some e)
    with assms(1) s have "t' = t1\<lparr>emitted := emitted t1 @ [CloseNotify (nextNotifyCh t)]\<rparr>"
      by (simp add: SubmitTx_begin_def Let_def t0_def)
    with d1 show ?thesis
      by (simp add: deadChannel_def received_append)
  qed
qed

lemma ProcessBlock_dead:
  assumes "ProcessBlock env t bi = (err, t')" and "deadChannel t ch"
  shows "deadChannel t' ch"
  using assms
  by (auto simp: ProcessBlock_def updateScheduler_def recordBlock_def deadChannel_def
      UpdateParameters_def Let_def split: if_splits option.splits sum.splits prod.splits)

lemma deadChannel_blocks:
  "deadChannel t ch \<Longrightarrow>
     SubmitTx_select ctxDone stopped t ch =
       (if ctxDone \<or> stopped
        then (if ctxDone then [Returned (Inl ErrContextDone)] else [])
             @ (if stopped then [Returned (Inl ErrShuttingDown)] else [])
        else [Blocked])"
  by (simp add: SubmitTx_select_def deadChannel_def)

lemma SubmitTx_seen_dead:
  assumes "Peek (seenCache t) (NewFromBytes env rawTx) \<noteq> None" and "\<not> Recheck meta"
    and "received (emitted t) (nextNotifyCh t) = None"
    and "Some (nextNotifyCh t) \<notin> set (map NotifyCh (pending (checkTxQueue t)))"
  shows "deadChannel (snd (SubmitTx_begin env t rawTx meta)) (nextNotifyCh t)"
  using assms by (simp add: SubmitTx_begin_seen deadChannel_def)

subsection \<open>The check queue keeps its fingerprints apart\<close>

lemma New_checkQueueInv: "checkQueueInv env (checkTxQueue (New c))"
  by (simp add: checkQueueInv_def New_def newCheckTxQueue_def)

lemma submitTx_checkQueueInv:
  assumes "submitTx env t rawTx meta notifyCh = (err, t')"
    and "checkQueueInv env (checkTxQueue t)"
  shows "checkQueueInv env (checkTxQueue t')"
  using assms
  by (auto simp: submitTx_def checkQueueInv_def Add_def Let_def split: if_splits)

lemma checkResults_queue:
  "checkResults env results batch (t, txs, uns) = Inr (t1, txs1, uns1) \<Longrightarrow>
     checkTxQueue t1 = checkTxQueue t"
proof (induction env results batch "(t, txs, uns)" arbitrary: t txs uns
    rule: checkResults.induct)
  case (1 env batch)
  then show ?case by simp
next
  case (2 env res results)
  then show ?case by simp
next
  case (3 env res results item batch t txs unschedule)
  then show ?case
    by (auto simp: Let_def split: if_splits option.splits)
qed

lemma checkTxBatch_queue:
  assumes fin: "checkTxBatch env t = Inr t'"
  shows "checkTxQueue t' = checkTxQueue t
     \<or> checkTxQueue t' = RemoveBatch (checkTxQueue t) (GetBatch (checkTxQueue t))"
proof (cases "GetBatch (checkTxQueue t) = [] \<or> blockInfo t = None
     \<or> (\<exists>bi err. blockInfo t = Some bi
           \<and> CheckTx env bi (map Tx (GetBatch (checkTxQueue t))) = Inl err)")
  case True
  then have "t' = t"
    using checkTxBatch_early [of t env] fin by simp
  then show ?thesis by simp
next
  case False
  then obtain bi results where bi: "blockInfo t = Some bi"
    and res: "CheckTx env bi (map Tx (GetBatch (checkTxQueue t))) = Inr results"
    and ne: "GetBatch (checkTxQueue t) \<noteq> []"
    by (cases "blockInfo t"; cases "CheckTx env (the (blockInfo t))
          (map Tx (GetBatch (checkTxQueue t)))") auto
  obtain t1 txs uns s1 t2 where
    cr: "checkResults env results (GetBatch (checkTxQueue t))
       (t\<lparr>checkTxQueue := RemoveBatch (checkTxQueue t) (GetBatch (checkTxQueue t))\<rparr>, [], [])
       = Inr (t1, txs, uns)"
    and s1: "scheduler t1 = Some s1"
    and t2: "t2 = t1\<lparr>scheduler := Some (schedRemoveTxBatch s1 uns),
                 emitted := emitted t1 @ [SchedulerRemoveTxBatch uns]\<rparr>"
    and rest: "(txs = [] \<and> t' = t2)
         \<or> (\<exists>t3. txs \<noteq> [] \<and> queueChecked env txs t2 = Inr t3
               \<and> t' = t3\<lparr>emitted := emitted t3 @
                    [CheckedTransactions (map fst txs), SchedulerNotify False]\<rparr>)"
    using checkTxBatch_steps [OF bi res ne fin] by blast
  have q2: "checkTxQueue t2 = RemoveBatch (checkTxQueue t) (GetBatch (checkTxQueue t))"
    unfolding t2 using checkResults_queue [OF cr] by simp
  have "checkTxQueue t' = checkTxQueue t2"
    using rest
  proof
    assume "txs = [] \<and> t' = t2"
    then show ?thesis by simp
  next
    assume "\<exists>t3. txs \<noteq> [] \<and> queueChecked env txs t2 = Inr t3
               \<and> t' = t3\<lparr>emitted := emitted t3 @
                    [CheckedTransactions (map fst txs), SchedulerNotify False]\<rparr>"
    then obtain t3 where q: "queueChecked env txs t2 = Inr t3"
      and t': "t' = t3\<lparr>emitted := emitted t3 @
                    [CheckedTransactions (map fst txs), SchedulerNotify False]\<rparr>"
      by blast
    show ?thesis
      unfolding t' using queueChecked_silent [OF q, of 0] by simp
  qed
  with q2 show ?thesis by simp
qed

lemma checkTxBatch_checkQueueInv:
  assumes "checkTxBatch env t = Inr t'" and "checkQueueInv env (checkTxQueue t)"
  shows "checkQueueInv env (checkTxQueue t')"
  using checkTxBatch_queue [OF assms(1)] assms(2)
  by (auto simp: checkQueueInv_def RemoveBatch_def distinct_map_filter list_all_iff)

end
